theory Spec2Isabelle
  imports Main
begin

section \<open>Data model (models.py)\<close>

text \<open>
  A calendar date is represented by its proleptic Gregorian ordinal, the value of
  Python's \<open>date.toordinal()\<close>: the difference \<open>(a - b).days\<close> of two dates is the
  difference of their ordinals and \<open>d - timedelta(days=1)\<close> is \<open>d - 1\<close>.
\<close>

type_synonym date = int

text \<open>
  The tables carry the columns that the modelled functions read or write. Primary keys
  and creation timestamps that the database generates for inserted rows (check-ins,
  earned achievements, notifications) are never read by these functions and are left
  out. A table is the list of its rows in the order in which an unordered query
  returns them.
\<close>

record user =
  u_id :: int
  u_display_name :: "string option"
  u_total_points :: int

record challenge =
  c_id :: int
  c_name :: string
  c_creator_id :: int
  c_points_per_checkin :: int
  c_streak_bonus :: int
  c_verification_type :: "string option"
  c_end_date :: "date option"
  c_is_completed :: bool
  c_winner_id :: "int option"

record challenge_member =
  m_id :: int
  m_challenge_id :: int
  m_user_id :: int
  m_points :: int
  m_current_streak :: int
  m_best_streak :: int
  m_streak_freezes :: int
  m_freezes_used :: int

record checkin_row =
  k_challenge_id :: int
  k_user_id :: int
  k_checkin_date :: date
  k_note :: string
  k_photo_url :: "string option"

record achievement =
  a_id :: int
  a_name :: string
  a_description :: "string option"
  a_condition_type :: string
  a_condition_value :: int

record user_achievement =
  ua_user_id :: int
  ua_achievement_id :: int

record notification =
  n_user_id :: int
  n_type :: string
  n_title :: string
  n_message :: string
  n_link :: "string option"

record db =
  d_users :: "user list"
  d_challenges :: "challenge list"
  d_members :: "challenge_member list"
  d_checkins :: "checkin_row list"
  d_achievements :: "achievement list"
  d_user_achievements :: "user_achievement list"
  d_notifications :: "notification list"

section \<open>Python strings and dates\<close>

text \<open>\<open>str(n)\<close> for an integer.\<close>

fun str_nat :: "nat \<Rightarrow> string" where
  "str_nat n =
     (if n < 10 then [char_of (48 + n)]
      else str_nat (n div 10) @ [char_of (48 + n mod 10)])"

declare str_nat.simps [simp del]

definition str_int :: "int \<Rightarrow> string" where
  "str_int i = (if i < 0 then CHR ''-'' # str_nat (nat (- i)) else str_nat (nat i))"

text \<open>How an f-string renders a nullable text column: \<open>None\<close> prints as \<open>None\<close>.\<close>

definition str_opt :: "string option \<Rightarrow> string" where
  "str_opt s = (case s of None \<Rightarrow> ''None'' | Some t \<Rightarrow> t)"

text \<open>
  \<open>str.strip()\<close>: the characters are code points below 256, of which Python counts
  these as whitespace.
\<close>

definition is_space :: "char \<Rightarrow> bool" where
  "is_space c =
     (let n = (of_char c :: nat)
      in (9 \<le> n \<and> n \<le> 13) \<or> (28 \<le> n \<and> n \<le> 32) \<or> n = 133 \<or> n = 160)"

definition strip :: "string \<Rightarrow> string" where
  "strip s = rev (dropWhile is_space (rev (dropWhile is_space s)))"

definition is_digit :: "char \<Rightarrow> bool" where
  "is_digit c = (let n = (of_char c :: nat) in 48 \<le> n \<and> n \<le> 57)"

definition digit_val :: "char \<Rightarrow> int" where
  "digit_val c = int (of_char c) - 48"

text \<open>
  \<open>re.match(r'^\d{4}-\d{2}-\d{2}$', s)\<close>. In Python \<open>$\<close> also matches just before a
  newline that ends the string.
\<close>

definition ymd_shape :: "string \<Rightarrow> bool" where
  "ymd_shape t =
     (length t = 10 \<and> list_all is_digit (take 4 t) \<and> t ! 4 = CHR ''-'' \<and>
      list_all is_digit (take 2 (drop 5 t)) \<and> t ! 7 = CHR ''-'' \<and>
      list_all is_digit (drop 8 t))"

definition re_match_date :: "string \<Rightarrow> bool" where
  "re_match_date s =
     (ymd_shape s \<or> (length s = 11 \<and> last s = CHR 0x0A \<and> ymd_shape (butlast s)))"

text \<open>The calendar of Python's \<open>datetime\<close>: leap years, month lengths, ordinals.\<close>

definition is_leap :: "int \<Rightarrow> bool" where
  "is_leap y = (y mod 4 = 0 \<and> (y mod 100 \<noteq> 0 \<or> y mod 400 = 0))"

definition days_in_month :: "int \<Rightarrow> int \<Rightarrow> int" where
  "days_in_month y m =
     (if m = 2 then (if is_leap y then 29 else 28)
      else if m = 4 \<or> m = 6 \<or> m = 9 \<or> m = 11 then 30 else 31)"

definition days_before_year :: "int \<Rightarrow> int" where
  "days_before_year year =
     (let y = year - 1 in y * 365 + y div 4 - y div 100 + y div 400)"

definition days_before_month :: "int \<Rightarrow> int \<Rightarrow> int" where
  "days_before_month y m =
     [0, 0, 31, 59, 90, 120, 151, 181, 212, 243, 273, 304, 334] ! nat m
       + (if m > 2 \<and> is_leap y then 1 else 0)"

definition ymd2ord :: "int \<Rightarrow> int \<Rightarrow> int \<Rightarrow> date" where
  "ymd2ord y m d = days_before_year y + days_before_month y m + d"

definition decimal :: "string \<Rightarrow> int" where
  "decimal s = foldl (\<lambda>acc c. 10 * acc + digit_val c) 0 s"

text \<open>
  \<open>datetime.strptime(s, '%Y-%m-%d').date()\<close> on the strings the handler passes to it,
  those that matched the pattern above: \<open>None\<close> stands for the \<open>ValueError\<close> raised when
  text is left over, the month is not 01..12, or the day does not exist in that month,
  or the year is 0000.
\<close>

definition strptime_ymd :: "string \<Rightarrow> date option" where
  "strptime_ymd s =
     (if \<not> ymd_shape s then None
      else let y = decimal (take 4 s); m = decimal (take 2 (drop 5 s));
               d = decimal (drop 8 s)
           in if 1 \<le> y \<and> 1 \<le> m \<and> m \<le> 12 \<and> 1 \<le> d \<and> d \<le> days_in_month y m
              then Some (ymd2ord y m d) else None)"

text \<open>
  Lines 1063-1076 of \<open>checkin\<close>: the date the check-in is recorded for, from the
  \<open>client_date\<close> form field and the server's today in the user's timezone.
\<close>

definition resolve_today :: "date \<Rightarrow> string \<Rightarrow> date" where
  "resolve_today user_today client_date_field =
     (let client_date = strip client_date_field
      in if client_date \<noteq> [] \<and> re_match_date client_date then
           (case strptime_ymd client_date of
              Some parsed \<Rightarrow>
                if \<bar>user_today - parsed\<bar> \<le> 1 then parsed else user_today
            | None \<Rightarrow> user_today)
         else user_today)"

section \<open>Image validation (app.py, lines 131-160)\<close>

record photo =
  p_filename :: string
  p_content :: "char list"

definition IMAGE_SIGNATURES :: "(char list \<times> string) list" where
  "IMAGE_SIGNATURES =
     [([CHR 0x89, CHR ''P'', CHR ''N'', CHR ''G'', CHR 0x0D, CHR 0x0A, CHR 0x1A, CHR 0x0A], ''png''),
      ([CHR 0xFF, CHR 0xD8, CHR 0xFF], ''jpg''),
      (''GIF87a'', ''gif''),
      (''GIF89a'', ''gif''),
      (''RIFF'', ''webp'')]"

definition ALLOWED_EXTENSIONS :: "string list" where
  "ALLOWED_EXTENSIONS = [''png'', ''jpg'', ''jpeg'', ''gif'', ''webp'']"

definition lower_char :: "char \<Rightarrow> char" where
  "lower_char c =
     (let n = (of_char c :: nat) in if 65 \<le> n \<and> n \<le> 90 then char_of (n + 32) else c)"

text \<open>\<open>filename.rsplit('.', 1)[1]\<close>: the text after the last dot.\<close>

definition after_last_dot :: "string \<Rightarrow> string" where
  "after_last_dot s = rev (takeWhile (\<lambda>c. c \<noteq> CHR ''.'') (rev s))"

definition allowed_file :: "string \<Rightarrow> bool" where
  "allowed_file filename =
     (CHR ''.'' \<in> set filename \<and>
      map lower_char (after_last_dot filename) \<in> set ALLOWED_EXTENSIONS)"

definition startswith :: "char list \<Rightarrow> char list \<Rightarrow> bool" where
  "startswith s p = (take (length p) s = p)"

fun match_signatures :: "char list \<Rightarrow> (char list \<times> string) list \<Rightarrow> bool" where
  "match_signatures header [] = False"
| "match_signatures header ((signature, fmt) # rest) =
     (if startswith header signature then
        (if fmt = ''webp'' then take 4 (drop 8 header) = ''WEBP'' else True)
      else match_signatures header rest)"

definition validate_image_file :: "photo \<Rightarrow> bool" where
  "validate_image_file file_storage =
     (let header = take 12 (p_content file_storage)
      in if header = [] then False else match_signatures header IMAGE_SIGNATURES)"

section \<open>Image host (cloudinary\_helper.py)\<close>

text \<open>
  The image host is outside the program. What a call of \<open>cloudinary.uploader.upload\<close>
  does during a request is part of the request's environment: it raises, or it returns
  a result whose \<open>secure_url\<close> and \<open>public_id\<close> entries may be missing.
\<close>

datatype upload_outcome = Uploaded "string option" "string option" | UploadRaises

record env =
  e_user_today :: date
  e_cloudinary_configured :: bool
  e_upload :: upload_outcome

definition upload_image :: "upload_outcome \<Rightarrow> photo \<Rightarrow> (string option \<times> string option) option" where
  "upload_image host file_storage =
     (if p_filename file_storage = [] then None
      else case host of
             Uploaded url public_id \<Rightarrow> Some (url, public_id)
           | UploadRaises \<Rightarrow> None)"

definition upload_checkin_photo :: "upload_outcome \<Rightarrow> photo \<Rightarrow> string option" where
  "upload_checkin_photo host file_storage =
     (case upload_image host file_storage of
        Some result \<Rightarrow> fst result
      | None \<Rightarrow> None)"

section \<open>Queries\<close>

definition get_user :: "db \<Rightarrow> int \<Rightarrow> user option" where
  "get_user s uid = find (\<lambda>u. u_id u = uid) (d_users s)"

definition get_challenge :: "db \<Rightarrow> int \<Rightarrow> challenge option" where
  "get_challenge s cid = find (\<lambda>c. c_id c = cid) (d_challenges s)"

definition find_member :: "db \<Rightarrow> int \<Rightarrow> int \<Rightarrow> challenge_member option" where
  "find_member s cid uid =
     find (\<lambda>m. m_challenge_id m = cid \<and> m_user_id m = uid) (d_members s)"

definition find_checkin :: "db \<Rightarrow> int \<Rightarrow> int \<Rightarrow> date \<Rightarrow> checkin_row option" where
  "find_checkin s cid uid d =
     find (\<lambda>k. k_challenge_id k = cid \<and> k_user_id k = uid \<and> k_checkin_date k = d)
       (d_checkins s)"

definition members_of_user :: "db \<Rightarrow> int \<Rightarrow> challenge_member list" where
  "members_of_user s uid = filter (\<lambda>m. m_user_id m = uid) (d_members s)"

definition members_of_challenge :: "db \<Rightarrow> int \<Rightarrow> challenge_member list" where
  "members_of_challenge s cid = filter (\<lambda>m. m_challenge_id m = cid) (d_members s)"

text \<open>Writing back a changed ORM object: the row with its primary key is replaced.\<close>

definition put_member :: "challenge_member \<Rightarrow> db \<Rightarrow> db" where
  "put_member m s =
     s\<lparr>d_members := map (\<lambda>r. if m_id r = m_id m then m else r) (d_members s)\<rparr>"

definition put_user :: "user \<Rightarrow> db \<Rightarrow> db" where
  "put_user u s =
     s\<lparr>d_users := map (\<lambda>r. if u_id r = u_id u then u else r) (d_users s)\<rparr>"

definition put_challenge :: "challenge \<Rightarrow> db \<Rightarrow> db" where
  "put_challenge c s =
     s\<lparr>d_challenges := map (\<lambda>r. if c_id r = c_id c then c else r) (d_challenges s)\<rparr>"

section \<open>Notifications and achievements (app.py, lines 257-315)\<close>

datatype endpoint = Dashboard | ViewChallenge int | AchievementsPage

text \<open>\<open>url_for\<close>, from the routes the application declares.\<close>

fun url_for :: "endpoint \<Rightarrow> string" where
  "url_for Dashboard = ''/dashboard''"
| "url_for (ViewChallenge cid) = ''/challenge/'' @ str_int cid"
| "url_for AchievementsPage = ''/achievements''"

definition create_notification ::
  "int \<Rightarrow> string \<Rightarrow> string \<Rightarrow> string \<Rightarrow> string option \<Rightarrow> db \<Rightarrow> db" where
  "create_notification user_id notif_type title message link s =
     s\<lparr>d_notifications := d_notifications s @
        [\<lparr>n_user_id = user_id, n_type = notif_type, n_title = title,
          n_message = message, n_link = link\<rparr>]\<rparr>"

definition best_streak_of :: "challenge_member list \<Rightarrow> int" where
  "best_streak_of ms =
     (case map m_best_streak ms of [] \<Rightarrow> 0 | x # xs \<Rightarrow> foldl max x xs)"

definition stat_map :: "db \<Rightarrow> int \<Rightarrow> (string \<times> int) list" where
  "stat_map s user_id =
     [(''total_checkins'', int (length (filter (\<lambda>k. k_user_id k = user_id) (d_checkins s)))),
      (''streak'', best_streak_of (members_of_user s user_id)),
      (''total_points'', sum_list (map m_points (members_of_user s user_id))),
      (''challenges_joined'', int (length (members_of_user s user_id))),
      (''challenges_created'',
         int (length (filter (\<lambda>c. c_creator_id c = user_id) (d_challenges s)))),
      (''photo_checkins'',
         int (length (filter (\<lambda>k. k_user_id k = user_id \<and> k_photo_url k \<noteq> None)
           (d_checkins s))))]"

definition qualifies :: "(string \<times> int) list \<Rightarrow> achievement \<Rightarrow> bool" where
  "qualifies stats a =
     (case map_of stats (a_condition_type a) of
        None \<Rightarrow> False
      | Some v \<Rightarrow> v \<ge> a_condition_value a)"

definition award :: "int \<Rightarrow> achievement \<Rightarrow> db \<Rightarrow> db" where
  "award user_id a s =
     create_notification user_id ''achievement_earned'' ''Achievement Unlocked''
       (''You earned '' @ [CHR 0x22] @ a_name a @ [CHR 0x22] @ '' - '' @
          str_opt (a_description a))
       (Some (url_for AchievementsPage))
       (s\<lparr>d_user_achievements := d_user_achievements s @
           [\<lparr>ua_user_id = user_id, ua_achievement_id = a_id a\<rparr>]\<rparr>)"

text \<open>The loop over the unearned achievements; the statistics were computed before it.\<close>

fun award_loop :: "(string \<times> int) list \<Rightarrow> int \<Rightarrow> achievement list \<Rightarrow> db \<Rightarrow> db" where
  "award_loop stats user_id [] s = s"
| "award_loop stats user_id (a # rest) s =
     award_loop stats user_id rest
       (if qualifies stats a then award user_id a s else s)"

definition earned_ids :: "db \<Rightarrow> int \<Rightarrow> int list" where
  "earned_ids s user_id =
     map ua_achievement_id (filter (\<lambda>ua. ua_user_id ua = user_id) (d_user_achievements s))"

definition unearned :: "db \<Rightarrow> int \<Rightarrow> achievement list" where
  "unearned s user_id =
     filter (\<lambda>a. a_id a \<notin> set (earned_ids s user_id)) (d_achievements s)"

definition check_achievements :: "int \<Rightarrow> db \<Rightarrow> db" where
  "check_achievements user_id s =
     (case get_user s user_id of
        None \<Rightarrow> s
      | Some user \<Rightarrow>
          if unearned s user_id = [] then s
          else award_loop (stat_map s user_id) user_id (unearned s user_id) s)"

section \<open>Challenge lifecycle (app.py, lines 318-348)\<close>

text \<open>Dereferencing \<open>None\<close> raises \<open>AttributeError\<close>; the request then ends in a 500 page.\<close>

datatype error = AttributeError

text \<open>
  \<open>order_by(ChallengeMember.points.desc()).first()\<close>: among rows with equal points the
  model keeps the table's order.
\<close>

definition winner_member_of :: "db \<Rightarrow> int \<Rightarrow> challenge_member option" where
  "winner_member_of s cid =
     (case sort_key (\<lambda>m. - m_points m) (members_of_challenge s cid) of
        [] \<Rightarrow> None
      | w # _ \<Rightarrow> Some w)"

definition ended_message :: "string \<Rightarrow> string \<Rightarrow> int \<Rightarrow> string" where
  "ended_message name winner_name winner_points =
     [CHR 0x22] @ name @ [CHR 0x22] @ '' has ended. '' @ winner_name @ '' won with '' @
       str_int winner_points @ '' points.''"

definition notify_members :: "challenge \<Rightarrow> string \<Rightarrow> int \<Rightarrow> challenge_member list \<Rightarrow> db \<Rightarrow> db" where
  "notify_members challenge winner_name winner_points ms s =
     foldl (\<lambda>t member.
         create_notification (m_user_id member) ''challenge_completed'' ''Challenge Ended''
           (ended_message (c_name challenge) winner_name winner_points)
           (Some (url_for (ViewChallenge (c_id challenge)))) t)
       s ms"

definition has_ended :: "date \<Rightarrow> challenge \<Rightarrow> bool" where
  "has_ended today challenge =
     (case c_end_date challenge of None \<Rightarrow> False | Some e \<Rightarrow> e < today)"

text \<open>
  The body of the loop, for one membership. Every notification commits, so a run of the
  body that changes anything has committed it when it ends; an exception leaves the
  state as it was before the body.
\<close>

definition finalize_challenge :: "date \<Rightarrow> challenge_member \<Rightarrow> db \<Rightarrow> error + db" where
  "finalize_challenge today membership s =
     (case get_challenge s (m_challenge_id membership) of
        None \<Rightarrow> Inl AttributeError
      | Some challenge \<Rightarrow>
          if has_ended today challenge \<and> \<not> c_is_completed challenge then
            (let winner_member = winner_member_of s (c_id challenge);
                 challenge' = challenge\<lparr>c_is_completed := True,
                                c_winner_id := map_option m_user_id winner_member\<rparr>;
                 members = members_of_challenge s (c_id challenge)
             in case winner_member of
                  None \<Rightarrow>
                    Inr (notify_members challenge' ''No one'' 0 members
                           (put_challenge challenge' s))
                | Some w \<Rightarrow>
                    (case get_user s (m_user_id w) of
                       None \<Rightarrow> Inl AttributeError
                     | Some winner \<Rightarrow>
                         Inr (notify_members challenge' (str_opt (u_display_name winner))
                                (m_points w) members (put_challenge challenge' s))))
          else Inr s)"

fun finalize_loop :: "date \<Rightarrow> challenge_member list \<Rightarrow> db \<Rightarrow> db \<times> error option" where
  "finalize_loop today [] s = (s, None)"
| "finalize_loop today (membership # rest) s =
     (case finalize_challenge today membership s of
        Inl e \<Rightarrow> (s, Some e)
      | Inr s' \<Rightarrow> finalize_loop today rest s')"

text \<open>\<open>today\<close> is the value of \<open>get_user_today()\<close>, read from the clock.\<close>

definition check_completed_challenges :: "date \<Rightarrow> int \<Rightarrow> db \<Rightarrow> db \<times> error option" where
  "check_completed_challenges today user_id s =
     finalize_loop today (members_of_user s user_id) s"

section \<open>Check-in (app.py, lines 1053-1204)\<close>

record request =
  r_user_id :: int
  r_challenge_id :: int
  r_client_date :: string
  r_note :: string
  r_photo :: "photo option"
  r_is_ajax :: bool

record payload =
  j_message :: string
  j_points_earned :: int
  j_new_streak :: int
  j_freeze_used :: bool
  j_freeze_earned :: int

text \<open>
  A response is a JSON error with status 400, the JSON body of a recorded check-in, or
  a redirect after a flashed message with its category.
\<close>

datatype response =
  Json400 string
| JsonOk payload
| FlashRedirect string string endpoint

definition fail :: "bool \<Rightarrow> string \<Rightarrow> endpoint \<Rightarrow> response" where
  "fail is_ajax msg target =
     (if is_ajax then Json400 msg else FlashRedirect msg ''error'' target)"

text \<open>Truthiness of a nullable string: \<open>None\<close> and the empty string are false.\<close>

definition truthy :: "string option \<Rightarrow> bool" where
  "truthy s = (case s of None \<Rightarrow> False | Some t \<Rightarrow> t \<noteq> [])"

text \<open>\<open>x or default\<close> for a nullable string.\<close>

definition or_else :: "string option \<Rightarrow> string \<Rightarrow> string" where
  "or_else s dflt = (case s of None \<Rightarrow> dflt | Some t \<Rightarrow> if t = [] then dflt else t)"

datatype photo_result = Rejected | Proceed "string option"

text \<open>Lines 1108-1124: the photo of the request, validated and sent to the image host.\<close>

definition photo_step :: "env \<Rightarrow> request \<Rightarrow> photo_result" where
  "photo_step e req =
     (case r_photo req of
        None \<Rightarrow> Proceed None
      | Some photo \<Rightarrow>
          if p_filename photo \<noteq> [] \<and> allowed_file (p_filename photo) then
            (if \<not> validate_image_file photo then Rejected
             else if e_cloudinary_configured e
               then Proceed (upload_checkin_photo (e_upload e) photo)
               else Proceed None)
          else Proceed None)"

text \<open>Lines 1137-1145: the new streak and whether a freeze is used.\<close>

definition streak_step :: "bool \<Rightarrow> challenge_member \<Rightarrow> int \<times> bool" where
  "streak_step checked_yesterday membership =
     (if checked_yesterday then (m_current_streak membership + 1, False)
      else if m_current_streak membership > 0 \<and> m_streak_freezes membership > 0
        then (m_current_streak membership + 1, True)
        else (1, False))"

text \<open>Lines 1147-1149.\<close>

definition points_for :: "challenge \<Rightarrow> int \<Rightarrow> int" where
  "points_for challenge new_streak =
     (if new_streak > 1
      then c_points_per_checkin challenge + c_streak_bonus challenge * (new_streak - 1)
      else c_points_per_checkin challenge)"

text \<open>Lines 1151-1157; \<open>//\<close> is floor division, as \<open>div\<close> on \<open>int\<close> is.\<close>

definition freeze_award :: "int \<Rightarrow> int \<Rightarrow> int" where
  "freeze_award old_streak new_streak =
     (if new_streak \<ge> 7 then new_streak div 7 - old_streak div 7 else 0)"

fun join :: "string \<Rightarrow> string list \<Rightarrow> string" where
  "join sep [] = []"
| "join sep [x] = x"
| "join sep (x # y # ys) = x @ sep @ join sep (y # ys)"

definition checkin_message :: "int \<Rightarrow> int \<Rightarrow> bool \<Rightarrow> int \<Rightarrow> string" where
  "checkin_message points_earned new_streak freeze_used freeze_earned =
     ''Check-in recorded. '' @
     join '' ''
       ([''+'' @ str_int points_earned @ '' points (Streak: '' @ str_int new_streak @ '')'']
        @ (if freeze_used then [''Streak freeze used!''] else [])
        @ (if freeze_earned > 0
           then [''+'' @ str_int freeze_earned @ '' freeze'' @
                 (if freeze_earned > 1 then ''s'' else []) @ '' earned!'']
           else []))"

text \<open>Lines 1133-1135: is there a check-in for the day before the resolved date?\<close>

definition checked_yesterday :: "db \<Rightarrow> request \<Rightarrow> date \<Rightarrow> bool" where
  "checked_yesterday s req today =
     (let yesterday = today - 1
      in find_checkin s (r_challenge_id req) (r_user_id req) yesterday \<noteq> None)"

text \<open>Lines 1160-1166: the row of the new check-in.\<close>

definition new_checkin :: "request \<Rightarrow> date \<Rightarrow> string option \<Rightarrow> checkin_row" where
  "new_checkin req today photo_url =
     \<lparr>k_challenge_id = r_challenge_id req, k_user_id = r_user_id req,
       k_checkin_date = today, k_note = strip (r_note req), k_photo_url = photo_url\<rparr>"

text \<open>Lines 1170-1175: the membership after the check-in.\<close>

definition update_membership ::
  "challenge_member \<Rightarrow> int \<Rightarrow> int \<Rightarrow> int \<Rightarrow> bool \<Rightarrow> challenge_member" where
  "update_membership membership points_earned new_streak freeze_earned freeze_used =
     membership\<lparr>
       m_points := m_points membership + points_earned,
       m_current_streak := new_streak,
       m_best_streak := max (m_best_streak membership) new_streak,
       m_streak_freezes :=
         max 0 (m_streak_freezes membership + freeze_earned - (if freeze_used then 1 else 0)),
       m_freezes_used := m_freezes_used membership + (if freeze_used then 1 else 0)\<rparr>"

text \<open>
  Lines 1132-1204, reached when every precondition has passed. The new row and the
  changes of the membership and of the user are pending until the single commit; if the
  user row is missing the exception discards them. The achievements are evaluated
  after the commit.
\<close>

definition record_checkin ::
  "request \<Rightarrow> date \<Rightarrow> challenge_member \<Rightarrow> challenge \<Rightarrow> string option \<Rightarrow> db
     \<Rightarrow> (error + response) \<times> db" where
  "record_checkin req today membership challenge photo_url s =
     (let user_id = r_user_id req; challenge_id = r_challenge_id req;
          new_streak = fst (streak_step (checked_yesterday s req today) membership);
          freeze_used = snd (streak_step (checked_yesterday s req today) membership);
          points_earned = points_for challenge new_streak;
          freeze_earned = freeze_award (m_current_streak membership) new_streak;
          s1 = s\<lparr>d_checkins := d_checkins s @ [new_checkin req today photo_url]\<rparr>;
          s2 = put_member
                 (update_membership membership points_earned new_streak freeze_earned freeze_used)
                 s1
      in case get_user s2 user_id of
           None \<Rightarrow> (Inl AttributeError, s)
         | Some user \<Rightarrow>
             (let s3 = put_user (user\<lparr>u_total_points := u_total_points user + points_earned\<rparr>) s2;
                  s4 = check_achievements user_id s3;
                  message = checkin_message points_earned new_streak freeze_used freeze_earned
              in (Inr (if r_is_ajax req
                       then JsonOk \<lparr>j_message = message, j_points_earned = points_earned,
                                    j_new_streak = new_streak, j_freeze_used = freeze_used,
                                    j_freeze_earned = freeze_earned\<rparr>
                       else FlashRedirect message ''success'' (ViewChallenge challenge_id)),
                  s4)))"

text \<open>
  The handler. \<open>e_user_today\<close> is the server's today in the timezone resolved in lines
  1060-1064, a current date, far from the ends of Python's date range. The result is
  the response, or the exception that ends the request, and the committed state.
\<close>

definition checkin :: "env \<Rightarrow> request \<Rightarrow> db \<Rightarrow> (error + response) \<times> db" where
  "checkin e req s =
     (let user_id = r_user_id req; challenge_id = r_challenge_id req;
          today = resolve_today (e_user_today e) (r_client_date req);
          is_ajax = r_is_ajax req
      in case find_member s challenge_id user_id of
           None \<Rightarrow>
             (Inr (fail is_ajax ''You are not a member of this challenge.'' Dashboard), s)
         | Some membership \<Rightarrow>
             (case get_challenge s challenge_id of
                None \<Rightarrow> (Inl AttributeError, s)
              | Some challenge \<Rightarrow>
                  if c_is_completed challenge then
                    (Inr (fail is_ajax ''This challenge has already ended.''
                            (ViewChallenge challenge_id)), s)
                  else if find_checkin s challenge_id user_id today \<noteq> None then
                    (Inr (fail is_ajax ''Already checked in today.''
                            (ViewChallenge challenge_id)), s)
                  else
                    (case photo_step e req of
                       Rejected \<Rightarrow>
                         (Inr (fail is_ajax ''Uploaded file is not a valid image.''
                                 (ViewChallenge challenge_id)), s)
                     | Proceed photo_url \<Rightarrow>
                         if or_else (c_verification_type challenge) ''none'' = ''photo_required''
                            \<and> \<not> truthy photo_url
                         then
                           (Inr (fail is_ajax ''Photo proof is required for this challenge.''
                                   (ViewChallenge challenge_id)), s)
                         else record_checkin req today membership challenge photo_url s)))"

text \<open>
  A request succeeded when it was answered with the JSON body of a recorded check-in or
  with a redirect whose flashed message has the category \<open>success\<close>.
\<close>

definition succeeded :: "error + response \<Rightarrow> bool" where
  "succeeded res =
     (case res of
        Inr (JsonOk p) \<Rightarrow> True
      | Inr (FlashRedirect msg category target) \<Rightarrow> category = ''success''
      | _ \<Rightarrow> False)"

section \<open>Sample data\<close>

text \<open>
  One user in one challenge, on 2026-11-04 (ordinal 739924): a streak of six days, one
  freeze, and no check-in on the day before.
\<close>

definition ex_member :: challenge_member where
  "ex_member =
     \<lparr>m_id = 1, m_challenge_id = 1, m_user_id = 1, m_points = 100, m_current_streak = 6,
       m_best_streak = 6, m_streak_freezes = 1, m_freezes_used = 0\<rparr>"

definition ex_user :: user where
  "ex_user = \<lparr>u_id = 1, u_display_name = Some ''Ann'', u_total_points = 100\<rparr>"

definition ex_challenge :: challenge where
  "ex_challenge =
     \<lparr>c_id = 1, c_name = ''Run'', c_creator_id = 1, c_points_per_checkin = 10,
       c_streak_bonus = 5, c_verification_type = Some ''photo_optional'',
       c_end_date = Some 739930, c_is_completed = False, c_winner_id = None\<rparr>"

definition ex_achievements :: "achievement list" where
  "ex_achievements =
     [\<lparr>a_id = 1, a_name = ''First Check-in'',
        a_description = Some ''Complete your first daily check-in'',
        a_condition_type = ''total_checkins'', a_condition_value = 1\<rparr>,
      \<lparr>a_id = 2, a_name = ''Week Warrior'', a_description = Some ''Reach a 7-day streak'',
        a_condition_type = ''streak'', a_condition_value = 7\<rparr>]"

definition ex_db :: db where
  "ex_db =
     \<lparr>d_users = [ex_user], d_challenges = [ex_challenge], d_members = [ex_member],
       d_checkins = [], d_achievements = ex_achievements, d_user_achievements = [],
       d_notifications = []\<rparr>"

definition ex_env :: env where
  "ex_env = \<lparr>e_user_today = 739924, e_cloudinary_configured = True, e_upload = UploadRaises\<rparr>"

definition ex_req :: request where
  "ex_req =
     \<lparr>r_user_id = 1, r_challenge_id = 1, r_client_date = ''2026-11-04'', r_note = '' done '',
       r_photo = None, r_is_ajax = True\<rparr>"

text \<open>
  The same user after a streak of eight days whose freeze is spent, with the answer of an
  AJAX check-in that follows a missed day.
\<close>

definition cx_member :: challenge_member where
  "cx_member =
     \<lparr>m_id = 1, m_challenge_id = 1, m_user_id = 1, m_points = 100, m_current_streak = 8,
       m_best_streak = 8, m_streak_freezes = 0, m_freezes_used = 1\<rparr>"

definition cx_db :: db where
  "cx_db = ex_db\<lparr>d_members := [cx_member]\<rparr>"

definition cx_payload :: payload where
  "cx_payload =
     \<lparr>j_message = ''Check-in recorded. +10 points (Streak: 1)'', j_points_earned = 10,
       j_new_streak = 1, j_freeze_used = False, j_freeze_earned = 0\<rparr>"



definition ex_req_stranger :: request where
  "ex_req_stranger = ex_req\<lparr>r_user_id := 2, r_is_ajax := False\<rparr>"

definition ex_db_completed :: db where
  "ex_db_completed = ex_db\<lparr>d_challenges := [ex_challenge\<lparr>c_is_completed := True\<rparr>]\<rparr>"

definition ex_db_photo_required :: db where
  "ex_db_photo_required =
     ex_db\<lparr>d_challenges := [ex_challenge\<lparr>c_verification_type := Some ''photo_required''\<rparr>]\<rparr>"

text \<open>The sample state with the check-in of the seventh day recorded.\<close>

definition ex_db_week :: db where
  "ex_db_week =
     ex_db\<lparr>d_members := [ex_member\<lparr>m_points := 140, m_current_streak := 7, m_best_streak := 7\<rparr>],
            d_checkins := [\<lparr>k_challenge_id = 1, k_user_id = 1, k_checkin_date = 739924,
                            k_note = ''done'', k_photo_url = None\<rparr>]\<rparr>"

text \<open>
  The foreign keys of the membership table (models.py, lines 81-82): the challenge and
  the user of every membership exist.
\<close>

definition foreign_keys :: "db \<Rightarrow> bool" where
  "foreign_keys s =
     list_all (\<lambda>x. get_challenge s (m_challenge_id x) \<noteq> None \<and>
                   get_user s (m_user_id x) \<noteq> None) (d_members s)"

text \<open>
  Two members of a challenge that ended on 2026-11-03; the check runs on 2026-11-04.
\<close>

definition ex_db_ended :: db where
  "ex_db_ended =
     \<lparr>d_users = [ex_user, \<lparr>u_id = 2, u_display_name = None, u_total_points = 250\<rparr>],
       d_challenges = [ex_challenge\<lparr>c_end_date := Some 739923\<rparr>],
       d_members = [ex_member,
                    \<lparr>m_id = 2, m_challenge_id = 1, m_user_id = 2, m_points = 250,
                      m_current_streak = 3, m_best_streak = 9, m_streak_freezes = 0,
                      m_freezes_used = 1\<rparr>],
       d_checkins = [], d_achievements = ex_achievements, d_user_achievements = [],
       d_notifications = []\<rparr>"

section \<open>Frame and lookup lemmas\<close>

lemma create_notification_frame [simp]:
  "d_users (create_notification u t ti m l s) = d_users s"
  "d_challenges (create_notification u t ti m l s) = d_challenges s"
  "d_members (create_notification u t ti m l s) = d_members s"
  "d_checkins (create_notification u t ti m l s) = d_checkins s"
  "d_achievements (create_notification u t ti m l s) = d_achievements s"
  "d_user_achievements (create_notification u t ti m l s) = d_user_achievements s"
  by (simp_all add: create_notification_def)

lemma award_frame [simp]:
  "d_users (award u a s) = d_users s"
  "d_challenges (award u a s) = d_challenges s"
  "d_members (award u a s) = d_members s"
  "d_checkins (award u a s) = d_checkins s"
  "d_achievements (award u a s) = d_achievements s"
  by (simp_all add: award_def)

lemma award_loop_frame [simp]:
  "d_users (award_loop st u as s) = d_users s"
  "d_challenges (award_loop st u as s) = d_challenges s"
  "d_members (award_loop st u as s) = d_members s"
  "d_checkins (award_loop st u as s) = d_checkins s"
  "d_achievements (award_loop st u as s) = d_achievements s"
  by (induction as arbitrary: s; simp)+

lemma check_achievements_frame [simp]:
  "d_users (check_achievements u s) = d_users s"
  "d_challenges (check_achievements u s) = d_challenges s"
  "d_members (check_achievements u s) = d_members s"
  "d_checkins (check_achievements u s) = d_checkins s"
  "d_achievements (check_achievements u s) = d_achievements s"
  by (simp_all add: check_achievements_def split: option.splits)

lemma find_put:
  "find P xs = Some x \<Longrightarrow> P x' \<Longrightarrow> k = key x \<Longrightarrow>
   find P (map (\<lambda>r. if key r = k then x' else r) xs) = Some x'"
  by (induction xs) (auto split: if_splits)

lemma find_Some_P: "find P xs = Some x \<Longrightarrow> P x"
  by (induction xs) (auto split: if_splits)

lemma fail_not_succeeded [simp]: "\<not> succeeded (Inr (fail a msg t))"
  by (simp add: succeeded_def fail_def)

lemma error_not_succeeded [simp]: "\<not> succeeded (Inl x)"
  by (simp add: succeeded_def)

section \<open>The runs of the check-in handler\<close>

lemma record_checkin_run:
  fixes s :: db and req :: request and today :: date and m :: challenge_member
    and c :: challenge and url :: "string option"
  assumes u: "get_user s (r_user_id req) = Some u"
  defines "ns \<equiv> fst (streak_step (checked_yesterday s req today) m)"
  defines "fu \<equiv> snd (streak_step (checked_yesterday s req today) m)"
  defines "pe \<equiv> points_for c ns"
  defines "fe \<equiv> freeze_award (m_current_streak m) ns"
  shows "record_checkin req today m c url s =
           (Inr (if r_is_ajax req
                 then JsonOk \<lparr>j_message = checkin_message pe ns fu fe, j_points_earned = pe,
                              j_new_streak = ns, j_freeze_used = fu, j_freeze_earned = fe\<rparr>
                 else FlashRedirect (checkin_message pe ns fu fe) ''success''
                        (ViewChallenge (r_challenge_id req))),
            check_achievements (r_user_id req)
              (put_user (u\<lparr>u_total_points := u_total_points u + pe\<rparr>)
                (put_member (update_membership m pe ns fe fu)
                   (s\<lparr>d_checkins := d_checkins s @ [new_checkin req today url]\<rparr>))))"
proof -
  have "get_user (put_member (update_membership m pe ns fe fu)
            (s\<lparr>d_checkins := d_checkins s @ [new_checkin req today url]\<rparr>))
          (r_user_id req) = Some u"
    using u by (simp add: get_user_def put_member_def)
  then show ?thesis
    unfolding record_checkin_def Let_def
    by (simp add: fe_def pe_def fu_def ns_def)
qed

lemma record_checkin_no_user:
  "get_user s (r_user_id req) = None \<Longrightarrow>
   record_checkin req today m c url s = (Inl AttributeError, s)"
  unfolding record_checkin_def Let_def
  by (simp add: get_user_def put_member_def)

lemma checkin_cases:
  assumes "checkin e req s = (res, s')"
  shows "(\<not> succeeded res \<and> s' = s) \<or>
         (\<exists>m c u url.
            find_member s (r_challenge_id req) (r_user_id req) = Some m \<and>
            get_challenge s (r_challenge_id req) = Some c \<and>
            \<not> c_is_completed c \<and>
            find_checkin s (r_challenge_id req) (r_user_id req)
              (resolve_today (e_user_today e) (r_client_date req)) = None \<and>
            photo_step e req = Proceed url \<and>
            \<not> (or_else (c_verification_type c) ''none'' = ''photo_required'' \<and> \<not> truthy url) \<and>
            get_user s (r_user_id req) = Some u \<and>
            record_checkin req (resolve_today (e_user_today e) (r_client_date req)) m c url s
              = (res, s'))"
  using assms unfolding checkin_def Let_def
  by (cases "get_user s (r_user_id req)")
     (auto split: option.splits if_splits photo_result.splits simp: record_checkin_no_user)


text \<open>The response and the committed state of a check-in that succeeded.\<close>

lemma checkin_success:
  fixes s :: db and req :: request and e :: env and m :: challenge_member
  assumes run: "checkin e req s = (res, s')" and ok: "succeeded res"
    and m: "find_member s (r_challenge_id req) (r_user_id req) = Some m"
  defines "today \<equiv> resolve_today (e_user_today e) (r_client_date req)"
  defines "ns \<equiv> fst (streak_step (checked_yesterday s req today) m)"
  defines "fu \<equiv> snd (streak_step (checked_yesterday s req today) m)"
  defines "fe \<equiv> freeze_award (m_current_streak m) ns"
  shows "\<exists>c u url.
           get_challenge s (r_challenge_id req) = Some c \<and>
           get_user s (r_user_id req) = Some u \<and>
           photo_step e req = Proceed url \<and>
           res = Inr (if r_is_ajax req
                 then JsonOk \<lparr>j_message = checkin_message (points_for c ns) ns fu fe,
                              j_points_earned = points_for c ns,
                              j_new_streak = ns, j_freeze_used = fu, j_freeze_earned = fe\<rparr>
                 else FlashRedirect (checkin_message (points_for c ns) ns fu fe) ''success''
                        (ViewChallenge (r_challenge_id req))) \<and>
           d_checkins s' = d_checkins s @ [new_checkin req today url] \<and>
           find_member s' (r_challenge_id req) (r_user_id req)
             = Some (update_membership m (points_for c ns) ns fe fu) \<and>
           get_user s' (r_user_id req)
             = Some (u\<lparr>u_total_points := u_total_points u + points_for c ns\<rparr>) \<and>
           d_challenges s' = d_challenges s"
proof -
  from checkin_cases [OF run] ok m obtain c u url where
    c: "get_challenge s (r_challenge_id req) = Some c" and
    u: "get_user s (r_user_id req) = Some u" and
    ph: "photo_step e req = Proceed url" and
    rc: "record_checkin req today m c url s = (res, s')"
    unfolding today_def by auto
  define pe where "pe = points_for c ns"
  note rr = record_checkin_run [OF u, where today = today and m = m and c = c and url = url]
  from rc rr have res: "res = Inr (if r_is_ajax req
                 then JsonOk \<lparr>j_message = checkin_message pe ns fu fe, j_points_earned = pe,
                              j_new_streak = ns, j_freeze_used = fu, j_freeze_earned = fe\<rparr>
                 else FlashRedirect (checkin_message pe ns fu fe) ''success''
                        (ViewChallenge (r_challenge_id req)))"
    and s': "s' = check_achievements (r_user_id req)
              (put_user (u\<lparr>u_total_points := u_total_points u + pe\<rparr>)
                (put_member (update_membership m pe ns fe fu)
                   (s\<lparr>d_checkins := d_checkins s @ [new_checkin req today url]\<rparr>)))"
    unfolding ns_def fu_def pe_def fe_def by (metis prod.inject)+
  have k: "d_checkins s' = d_checkins s @ [new_checkin req today url]"
    by (simp add: s' put_user_def put_member_def)
  have ch: "d_challenges s' = d_challenges s"
    by (simp add: s' put_user_def put_member_def)
  have Pm: "m_challenge_id m = r_challenge_id req \<and> m_user_id m = r_user_id req"
    using find_Some_P [OF m [unfolded find_member_def]] by simp
  have mem: "find_member s' (r_challenge_id req) (r_user_id req)
             = Some (update_membership m pe ns fe fu)"
    unfolding find_member_def s'
    apply (simp add: put_user_def put_member_def)
    apply (rule find_put [where x = m])
    using m Pm by (simp_all add: find_member_def update_membership_def)
  have usr: "get_user s' (r_user_id req) = Some (u\<lparr>u_total_points := u_total_points u + pe\<rparr>)"
    unfolding get_user_def s'
    apply (simp add: put_user_def put_member_def)
    apply (rule find_put [where x = u])
    using u find_Some_P [OF u [unfolded get_user_def]] by (simp_all add: get_user_def)
  show ?thesis using c u ph res k mem usr ch unfolding pe_def by blast
qed

text \<open>The sample request succeeds.\<close>

lemma ex_run_succeeded: "succeeded (fst (checkin ex_env ex_req ex_db))"
  by code_simp

lemma ex_run_member: "find_member ex_db (r_challenge_id ex_req) (r_user_id ex_req) = Some ex_member"
  by code_simp

lemma ex_run_not_yesterday:
  "\<not> checked_yesterday ex_db ex_req (resolve_today (e_user_today ex_env) (r_client_date ex_req))"
  by code_simp

section \<open>Streak, points and freezes of a check-in\<close>

text \<open>
  C1. A check-in that succeeds stores the new streak computed from the membership as it
  was before: if there is a check-in for the day before the resolved date, the old streak
  plus one and no freeze used; otherwise, if the old streak and the available freezes are
  both positive, the old streak plus one and one freeze used; otherwise 1 and no freeze
  used. The JSON answer carries the same streak and the freeze-used flag.
\<close>

theorem checkin_streak_rule:
  assumes "checkin e req s = (res, s')" and "succeeded res"
    and "find_member s (r_challenge_id req) (r_user_id req) = Some m"
  shows "\<exists>m'. find_member s' (r_challenge_id req) (r_user_id req) = Some m' \<and>
           (if checked_yesterday s req (resolve_today (e_user_today e) (r_client_date req))
            then m_current_streak m' = m_current_streak m + 1 \<and>
                 m_freezes_used m' = m_freezes_used m
            else if m_current_streak m > 0 \<and> m_streak_freezes m > 0
            then m_current_streak m' = m_current_streak m + 1 \<and>
                 m_freezes_used m' = m_freezes_used m + 1
            else m_current_streak m' = 1 \<and> m_freezes_used m' = m_freezes_used m) \<and>
           (\<forall>p. res = Inr (JsonOk p) \<longrightarrow>
                j_new_streak p = m_current_streak m' \<and>
                (j_freeze_used p \<longleftrightarrow> m_freezes_used m' = m_freezes_used m + 1))"
proof -
  let ?st = "streak_step (checked_yesterday s req
               (resolve_today (e_user_today e) (r_client_date req))) m"
  let ?fe = "freeze_award (m_current_streak m) (fst ?st)"
  from checkin_success [OF assms] obtain c where
    res: "res = Inr (if r_is_ajax req
       then JsonOk \<lparr>j_message = checkin_message (points_for c (fst ?st)) (fst ?st) (snd ?st) ?fe,
                    j_points_earned = points_for c (fst ?st), j_new_streak = fst ?st,
                    j_freeze_used = snd ?st, j_freeze_earned = ?fe\<rparr>
       else FlashRedirect (checkin_message (points_for c (fst ?st)) (fst ?st) (snd ?st) ?fe)
              ''success'' (ViewChallenge (r_challenge_id req)))"
    and mem: "find_member s' (r_challenge_id req) (r_user_id req)
       = Some (update_membership m (points_for c (fst ?st)) (fst ?st) ?fe (snd ?st))"
    by blast
  show ?thesis
    unfolding mem using res
    by (auto simp: update_membership_def streak_step_def split: if_splits)
qed

theorem checkin_streak_rule_witness:
  "succeeded (fst (checkin ex_env ex_req ex_db)) \<and>
   find_member ex_db 1 1 = Some ex_member \<and>
   (\<exists>m'. find_member (snd (checkin ex_env ex_req ex_db)) 1 1 = Some m' \<and>
         m_current_streak m' = 7 \<and> m_freezes_used m' = 1)"
proof -
  have run: "checkin ex_env ex_req ex_db
               = (fst (checkin ex_env ex_req ex_db), snd (checkin ex_env ex_req ex_db))"
    by simp
  have ids: "r_challenge_id ex_req = 1" "r_user_id ex_req = 1"
    by (simp_all add: ex_req_def)
  have vals: "m_current_streak ex_member = 6" "m_streak_freezes ex_member = 1"
    "m_freezes_used ex_member = 0"
    by (simp_all add: ex_member_def)
  from checkin_streak_rule [OF run ex_run_succeeded ex_run_member]
  show ?thesis
    using ex_run_succeeded ex_run_member ex_run_not_yesterday
    by (auto simp: ids vals)
qed

text \<open>
  C2, as the code has it. A check-in that succeeds awards
  \<open>new_streak div 7 - old_streak div 7\<close> freezes when the new streak is at least 7 and
  none otherwise, so none when the streak is reset to 1; the stored balance is the old
  one plus the award minus the freeze used, and not below zero. With a streak of 6, one
  freeze and no check-in the day before, the new streak is 7, one freeze is used and one
  is earned.
\<close>

theorem checkin_freeze_award:
  assumes "checkin e req s = (res, s')" and "succeeded res"
    and "find_member s (r_challenge_id req) (r_user_id req) = Some m"
  shows "\<exists>m'. find_member s' (r_challenge_id req) (r_user_id req) = Some m' \<and>
           (let old_streak = m_current_streak m; new_streak = m_current_streak m';
                earned = (if new_streak \<ge> 7 then new_streak div 7 - old_streak div 7 else 0);
                consumed = m_freezes_used m' - m_freezes_used m
            in m_streak_freezes m' = max 0 (m_streak_freezes m + earned - consumed) \<and>
               (\<forall>p. res = Inr (JsonOk p) \<longrightarrow> j_freeze_earned p = earned) \<and>
               (old_streak = 6 \<and> m_streak_freezes m = 1 \<and>
                \<not> checked_yesterday s req (resolve_today (e_user_today e) (r_client_date req))
                \<longrightarrow> new_streak = 7 \<and> consumed = 1 \<and> earned = 1 \<and> m_streak_freezes m' = 1))"
proof -
  let ?st = "streak_step (checked_yesterday s req
               (resolve_today (e_user_today e) (r_client_date req))) m"
  let ?fe = "freeze_award (m_current_streak m) (fst ?st)"
  from checkin_success [OF assms] obtain c where
    res: "res = Inr (if r_is_ajax req
       then JsonOk \<lparr>j_message = checkin_message (points_for c (fst ?st)) (fst ?st) (snd ?st) ?fe,
                    j_points_earned = points_for c (fst ?st), j_new_streak = fst ?st,
                    j_freeze_used = snd ?st, j_freeze_earned = ?fe\<rparr>
       else FlashRedirect (checkin_message (points_for c (fst ?st)) (fst ?st) (snd ?st) ?fe)
              ''success'' (ViewChallenge (r_challenge_id req)))"
    and mem: "find_member s' (r_challenge_id req) (r_user_id req)
       = Some (update_membership m (points_for c (fst ?st)) (fst ?st) ?fe (snd ?st))"
    by blast
  show ?thesis
    unfolding mem Let_def using res
    by (auto simp: update_membership_def streak_step_def freeze_award_def split: if_splits)
qed

theorem checkin_freeze_award_witness:
  "succeeded (fst (checkin ex_env ex_req ex_db)) \<and>
   find_member ex_db 1 1 = Some ex_member \<and>
   (\<exists>m'. find_member (snd (checkin ex_env ex_req ex_db)) 1 1 = Some m' \<and>
         m_current_streak m' = 7 \<and> m_freezes_used m' - m_freezes_used ex_member = 1 \<and>
         m_streak_freezes m' = 1)"
proof -
  have run: "checkin ex_env ex_req ex_db
               = (fst (checkin ex_env ex_req ex_db), snd (checkin ex_env ex_req ex_db))"
    by simp
  have ids: "r_challenge_id ex_req = 1" "r_user_id ex_req = 1"
    by (simp_all add: ex_req_def)
  have vals: "m_current_streak ex_member = 6" "m_streak_freezes ex_member = 1"
    by (simp_all add: ex_member_def)
  from checkin_freeze_award [OF run ex_run_succeeded ex_run_member]
  show ?thesis
    using ex_run_succeeded ex_run_member ex_run_not_yesterday
    by (auto simp: ids vals Let_def)
qed

text \<open>
  The formula of C2 without the guard fails when a streak of 8 is reset: the check-in
  awards no freeze, while \<open>1 div 7 - 8 div 7 = - 1\<close>.
\<close>

theorem freeze_formula_counterexample:
  "fst (checkin ex_env ex_req cx_db) = Inr (JsonOk cx_payload) \<and>
   find_member cx_db 1 1 = Some cx_member \<and>
   j_freeze_earned cx_payload
     \<noteq> j_new_streak cx_payload div 7 - m_current_streak cx_member div 7"
  by code_simp

section \<open>Points and the freeze balance\<close>


lemma ex_run_challenge: "get_challenge ex_db (r_challenge_id ex_req) = Some ex_challenge"
  by code_simp

lemma ex_run_user: "get_user ex_db (r_user_id ex_req) = Some ex_user"
  by code_simp

lemma ex_run_member_after:
  "find_member (snd (checkin ex_env ex_req ex_db)) 1 1
     = Some \<lparr>m_id = 1, m_challenge_id = 1, m_user_id = 1, m_points = 140,
              m_current_streak = 7, m_best_streak = 7, m_streak_freezes = 1,
              m_freezes_used = 1\<rparr>"
  by code_simp

text \<open>
  C3. A check-in that succeeds earns the challenge's points per check-in, plus the streak
  bonus times the new streak minus one when the new streak is greater than 1, and
  exactly the base value otherwise (so when the new streak is 1). The amount is added to
  the membership's points and to the user's total and is the one the JSON answer reports.
\<close>

theorem checkin_points:
  assumes "checkin e req s = (res, s')" and "succeeded res"
    and "find_member s (r_challenge_id req) (r_user_id req) = Some m"
    and "get_challenge s (r_challenge_id req) = Some c"
    and "get_user s (r_user_id req) = Some u"
  shows "\<exists>m' u'. find_member s' (r_challenge_id req) (r_user_id req) = Some m' \<and>
           get_user s' (r_user_id req) = Some u' \<and>
           (let new_streak = m_current_streak m';
                earned = (if new_streak > 1
                          then c_points_per_checkin c + c_streak_bonus c * (new_streak - 1)
                          else c_points_per_checkin c)
            in m_points m' = m_points m + earned \<and>
               u_total_points u' = u_total_points u + earned \<and>
               (\<forall>p. res = Inr (JsonOk p) \<longrightarrow> j_points_earned p = earned))"
proof -
  let ?st = "streak_step (checked_yesterday s req
               (resolve_today (e_user_today e) (r_client_date req))) m"
  let ?fe = "freeze_award (m_current_streak m) (fst ?st)"
  from checkin_success [OF assms(1-3)] assms(4,5) have
    res: "res = Inr (if r_is_ajax req
       then JsonOk \<lparr>j_message = checkin_message (points_for c (fst ?st)) (fst ?st) (snd ?st) ?fe,
                    j_points_earned = points_for c (fst ?st), j_new_streak = fst ?st,
                    j_freeze_used = snd ?st, j_freeze_earned = ?fe\<rparr>
       else FlashRedirect (checkin_message (points_for c (fst ?st)) (fst ?st) (snd ?st) ?fe)
              ''success'' (ViewChallenge (r_challenge_id req)))"
    and mem: "find_member s' (r_challenge_id req) (r_user_id req)
       = Some (update_membership m (points_for c (fst ?st)) (fst ?st) ?fe (snd ?st))"
    and usr: "get_user s' (r_user_id req)
       = Some (u\<lparr>u_total_points := u_total_points u + points_for c (fst ?st)\<rparr>)"
    by auto
  show ?thesis
    unfolding mem usr Let_def using res
    by (auto simp: update_membership_def points_for_def split: if_splits)
qed

theorem checkin_points_witness:
  "succeeded (fst (checkin ex_env ex_req ex_db)) \<and>
   find_member ex_db 1 1 = Some ex_member \<and> get_challenge ex_db 1 = Some ex_challenge \<and>
   get_user ex_db 1 = Some ex_user \<and>
   (\<exists>m' u'. find_member (snd (checkin ex_env ex_req ex_db)) 1 1 = Some m' \<and>
         get_user (snd (checkin ex_env ex_req ex_db)) 1 = Some u' \<and>
         m_current_streak m' = 7 \<and> m_points m' = 100 + (10 + 5 * 6) \<and>
         u_total_points u' = 100 + (10 + 5 * 6))"
proof -
  have run: "checkin ex_env ex_req ex_db
               = (fst (checkin ex_env ex_req ex_db), snd (checkin ex_env ex_req ex_db))"
    by simp
  have ids: "r_challenge_id ex_req = 1" "r_user_id ex_req = 1"
    by (simp_all add: ex_req_def)
  have vals: "m_points ex_member = 100" "u_total_points ex_user = 100"
    "c_points_per_checkin ex_challenge = 10" "c_streak_bonus ex_challenge = 5"
    by (simp_all add: ex_member_def ex_user_def ex_challenge_def)
  from checkin_points [OF run ex_run_succeeded ex_run_member ex_run_challenge ex_run_user]
  show ?thesis
    using ex_run_succeeded ex_run_member ex_run_challenge ex_run_user ex_run_member_after
    by (auto simp: ids vals Let_def)
qed

text \<open>
  C8. If the membership's freezes are not negative before a check-in that succeeds, they
  are not negative after it: the new balance is the old one plus the freezes earned
  minus the freeze used, the award is never negative, and a freeze is used only when
  the old balance is positive.
\<close>

theorem freezes_never_negative:
  assumes "checkin e req s = (res, s')" and "succeeded res"
    and "find_member s (r_challenge_id req) (r_user_id req) = Some m"
    and "0 \<le> m_streak_freezes m"
  shows "\<exists>m'. find_member s' (r_challenge_id req) (r_user_id req) = Some m' \<and>
           (let earned = freeze_award (m_current_streak m) (m_current_streak m');
                consumed = m_freezes_used m' - m_freezes_used m
            in 0 \<le> m_streak_freezes m' \<and>
               m_streak_freezes m' = m_streak_freezes m + earned - consumed \<and>
               0 \<le> earned \<and> (consumed = 0 \<or> consumed = 1) \<and>
               (consumed = 1 \<longrightarrow> 0 < m_streak_freezes m))"
proof -
  let ?st = "streak_step (checked_yesterday s req
               (resolve_today (e_user_today e) (r_client_date req))) m"
  let ?fe = "freeze_award (m_current_streak m) (fst ?st)"
  from checkin_success [OF assms(1-3)] obtain c where
    mem: "find_member s' (r_challenge_id req) (r_user_id req)
       = Some (update_membership m (points_for c (fst ?st)) (fst ?st) ?fe (snd ?st))"
    by blast
  have fe: "0 \<le> ?fe"
    by (auto simp: freeze_award_def streak_step_def zdiv_mono1)
  show ?thesis
    unfolding mem Let_def using fe assms(4)
    by (auto simp: update_membership_def streak_step_def split: if_splits)
qed

theorem freezes_never_negative_witness:
  "succeeded (fst (checkin ex_env ex_req ex_db)) \<and>
   find_member ex_db 1 1 = Some ex_member \<and> 0 \<le> m_streak_freezes ex_member \<and>
   (\<exists>m'. find_member (snd (checkin ex_env ex_req ex_db)) 1 1 = Some m' \<and>
         0 \<le> m_streak_freezes m' \<and> m_freezes_used m' - m_freezes_used ex_member = 1)"
proof -
  have run: "checkin ex_env ex_req ex_db
               = (fst (checkin ex_env ex_req ex_db), snd (checkin ex_env ex_req ex_db))"
    by simp
  have ids: "r_challenge_id ex_req = 1" "r_user_id ex_req = 1"
    by (simp_all add: ex_req_def)
  have nn: "0 \<le> m_streak_freezes ex_member"
    by (simp add: ex_member_def)
  have used: "m_freezes_used ex_member = 0"
    by (simp add: ex_member_def)
  from freezes_never_negative [OF run ex_run_succeeded ex_run_member nn]
  show ?thesis
    using ex_run_succeeded ex_run_member nn used ex_run_member_after
    by (auto simp: ids Let_def)
qed

section \<open>Preconditions and the commit\<close>


lemma find_append_last: "P x \<Longrightarrow> find P (xs @ [x]) \<noteq> None"
  by (induction xs) auto

lemma record_checkin_succeeded:
  "get_user s (r_user_id req) = Some u \<Longrightarrow>
   record_checkin req today m c url s = (res, s') \<Longrightarrow> succeeded res"
  unfolding record_checkin_run by (cases "r_is_ajax req") (auto simp: succeeded_def)








text \<open>
  C4. The handler checks, in this order: the caller is a member; the challenge is not
  completed; there is no check-in for the resolved date; and, when the challenge
  requires photo proof, a validated image was supplied. The first check that fails
  answers with an error and leaves the state as it was; every run that does not succeed
  leaves the state as it was; and after a check-in that succeeded, another one by the
  same user for the same challenge and date is answered with the error of the third
  check and changes nothing.
\<close>

theorem checkin_guards:
  "(find_member s (r_challenge_id req) (r_user_id req) = None \<longrightarrow>
      checkin e req s =
        (Inr (fail (r_is_ajax req) ''You are not a member of this challenge.'' Dashboard), s)) \<and>
   (find_member s (r_challenge_id req) (r_user_id req) = Some m \<and>
    get_challenge s (r_challenge_id req) = Some c \<and> c_is_completed c \<longrightarrow>
      checkin e req s =
        (Inr (fail (r_is_ajax req) ''This challenge has already ended.''
                (ViewChallenge (r_challenge_id req))), s)) \<and>
   (find_member s (r_challenge_id req) (r_user_id req) = Some m \<and>
    get_challenge s (r_challenge_id req) = Some c \<and> \<not> c_is_completed c \<and>
    find_checkin s (r_challenge_id req) (r_user_id req)
      (resolve_today (e_user_today e) (r_client_date req)) \<noteq> None \<longrightarrow>
      checkin e req s =
        (Inr (fail (r_is_ajax req) ''Already checked in today.''
                (ViewChallenge (r_challenge_id req))), s)) \<and>
   (find_member s (r_challenge_id req) (r_user_id req) = Some m \<and>
    get_challenge s (r_challenge_id req) = Some c \<and> \<not> c_is_completed c \<and>
    find_checkin s (r_challenge_id req) (r_user_id req)
      (resolve_today (e_user_today e) (r_client_date req)) = None \<and>
    or_else (c_verification_type c) ''none'' = ''photo_required'' \<and>
    \<not> (\<exists>ph. r_photo req = Some ph \<and> p_filename ph \<noteq> [] \<and> allowed_file (p_filename ph) \<and>
              validate_image_file ph) \<longrightarrow>
      (\<exists>msg. checkin e req s =
        (Inr (fail (r_is_ajax req) msg (ViewChallenge (r_challenge_id req))), s))) \<and>
   (checkin e req s = (res, s') \<and> \<not> succeeded res \<longrightarrow> s' = s) \<and>
   (checkin e req s = (res, s') \<and> succeeded res \<and>
    r_user_id req2 = r_user_id req \<and> r_challenge_id req2 = r_challenge_id req \<and>
    resolve_today (e_user_today e2) (r_client_date req2)
      = resolve_today (e_user_today e) (r_client_date req) \<longrightarrow>
      checkin e2 req2 s' =
        (Inr (fail (r_is_ajax req2) ''Already checked in today.''
                (ViewChallenge (r_challenge_id req))), s'))"
proof (intro conjI impI)
  assume "find_member s (r_challenge_id req) (r_user_id req) = None"
  then show "checkin e req s =
        (Inr (fail (r_is_ajax req) ''You are not a member of this challenge.'' Dashboard), s)"
    by (simp add: checkin_def)
next
  assume "find_member s (r_challenge_id req) (r_user_id req) = Some m \<and>
    get_challenge s (r_challenge_id req) = Some c \<and> c_is_completed c"
  then show "checkin e req s =
        (Inr (fail (r_is_ajax req) ''This challenge has already ended.''
                (ViewChallenge (r_challenge_id req))), s)"
    by (simp add: checkin_def)
next
  assume "find_member s (r_challenge_id req) (r_user_id req) = Some m \<and>
    get_challenge s (r_challenge_id req) = Some c \<and> \<not> c_is_completed c \<and>
    find_checkin s (r_challenge_id req) (r_user_id req)
      (resolve_today (e_user_today e) (r_client_date req)) \<noteq> None"
  then show "checkin e req s =
        (Inr (fail (r_is_ajax req) ''Already checked in today.''
                (ViewChallenge (r_challenge_id req))), s)"
    by (auto simp: checkin_def)
next
  assume a: "find_member s (r_challenge_id req) (r_user_id req) = Some m \<and>
    get_challenge s (r_challenge_id req) = Some c \<and> \<not> c_is_completed c \<and>
    find_checkin s (r_challenge_id req) (r_user_id req)
      (resolve_today (e_user_today e) (r_client_date req)) = None \<and>
    or_else (c_verification_type c) ''none'' = ''photo_required'' \<and>
    \<not> (\<exists>ph. r_photo req = Some ph \<and> p_filename ph \<noteq> [] \<and> allowed_file (p_filename ph) \<and>
              validate_image_file ph)"
  then have "photo_step e req = Rejected \<or> photo_step e req = Proceed None"
    by (auto simp: photo_step_def split: option.splits)
  with a show "\<exists>msg. checkin e req s =
        (Inr (fail (r_is_ajax req) msg (ViewChallenge (r_challenge_id req))), s)"
    by (auto simp: checkin_def truthy_def)
next
  assume "checkin e req s = (res, s') \<and> \<not> succeeded res"
  with checkin_cases [of e req s res s'] show "s' = s"
    using record_checkin_succeeded by blast
next
  assume a: "checkin e req s = (res, s') \<and> succeeded res \<and>
    r_user_id req2 = r_user_id req \<and> r_challenge_id req2 = r_challenge_id req \<and>
    resolve_today (e_user_today e2) (r_client_date req2)
      = resolve_today (e_user_today e) (r_client_date req)"
  then have run: "checkin e req s = (res, s')" and ok: "succeeded res"
    by simp_all
  from checkin_cases [OF run] ok obtain m0 c0 where
    m0: "find_member s (r_challenge_id req) (r_user_id req) = Some m0"
    and c0: "get_challenge s (r_challenge_id req) = Some c0" and op: "\<not> c_is_completed c0"
    by blast
  from checkin_success [OF run ok m0] obtain m1 url where
    m1: "find_member s' (r_challenge_id req) (r_user_id req) = Some m1"
    and k: "d_checkins s' = d_checkins s @
              [new_checkin req (resolve_today (e_user_today e) (r_client_date req)) url]"
    and ch: "d_challenges s' = d_challenges s"
    by blast
  have c1: "get_challenge s' (r_challenge_id req) = Some c0"
    using c0 ch by (simp add: get_challenge_def)
  have dup: "find_checkin s' (r_challenge_id req) (r_user_id req)
      (resolve_today (e_user_today e) (r_client_date req)) \<noteq> None"
    unfolding find_checkin_def k
    by (rule find_append_last) (simp add: new_checkin_def)
  show "checkin e2 req2 s' =
        (Inr (fail (r_is_ajax req2) ''Already checked in today.''
                (ViewChallenge (r_challenge_id req))), s')"
    using a m1 c1 op dup by (auto simp: checkin_def)
qed



theorem checkin_guards_witness:
  "checkin ex_env ex_req_stranger ex_db =
     (Inr (FlashRedirect ''You are not a member of this challenge.'' ''error'' Dashboard),
      ex_db) \<and>
   checkin ex_env ex_req ex_db_completed =
     (Inr (Json400 ''This challenge has already ended.''), ex_db_completed) \<and>
   (\<exists>msg. checkin ex_env ex_req ex_db_photo_required =
     (Inr (Json400 msg), ex_db_photo_required)) \<and>
   succeeded (fst (checkin ex_env ex_req ex_db)) \<and>
   checkin ex_env ex_req (snd (checkin ex_env ex_req ex_db)) =
     (Inr (Json400 ''Already checked in today.''), snd (checkin ex_env ex_req ex_db))"
proof -
  have ids: "r_challenge_id ex_req = 1" "r_user_id ex_req = 1" "r_is_ajax ex_req"
    "r_is_ajax ex_req_stranger = False"
    by (simp_all add: ex_req_def ex_req_stranger_def)
  have h1: "find_member ex_db (r_challenge_id ex_req_stranger) (r_user_id ex_req_stranger) = None"
    by code_simp
  have w1: "checkin ex_env ex_req_stranger ex_db =
     (Inr (FlashRedirect ''You are not a member of this challenge.'' ''error'' Dashboard),
      ex_db)"
    using checkin_guards [where s = ex_db and req = ex_req_stranger and e = ex_env,
        THEN conjunct1] h1
    by (simp add: fail_def ids)
  have h2: "find_member ex_db_completed (r_challenge_id ex_req) (r_user_id ex_req)
             = Some ex_member \<and>
     get_challenge ex_db_completed (r_challenge_id ex_req)
             = Some (ex_challenge\<lparr>c_is_completed := True\<rparr>) \<and>
     c_is_completed (ex_challenge\<lparr>c_is_completed := True\<rparr>)"
    by code_simp
  have w2: "checkin ex_env ex_req ex_db_completed =
     (Inr (Json400 ''This challenge has already ended.''), ex_db_completed)"
    using checkin_guards [where s = ex_db_completed and req = ex_req and e = ex_env
        and m = ex_member and c = "ex_challenge\<lparr>c_is_completed := True\<rparr>",
        THEN conjunct2, THEN conjunct1] h2
    by (simp add: fail_def ids)
  have h4: "find_member ex_db_photo_required (r_challenge_id ex_req) (r_user_id ex_req)
             = Some ex_member \<and>
     get_challenge ex_db_photo_required (r_challenge_id ex_req)
             = Some (ex_challenge\<lparr>c_verification_type := Some ''photo_required''\<rparr>) \<and>
     \<not> c_is_completed (ex_challenge\<lparr>c_verification_type := Some ''photo_required''\<rparr>) \<and>
     find_checkin ex_db_photo_required (r_challenge_id ex_req) (r_user_id ex_req)
       (resolve_today (e_user_today ex_env) (r_client_date ex_req)) = None \<and>
     or_else (c_verification_type (ex_challenge\<lparr>c_verification_type := Some ''photo_required''\<rparr>))
       ''none'' = ''photo_required''"
    by code_simp
  have h4': "\<not> (\<exists>ph. r_photo ex_req = Some ph \<and> p_filename ph \<noteq> [] \<and>
                allowed_file (p_filename ph) \<and> validate_image_file ph)"
    by (simp add: ex_req_def)
  have w4: "\<exists>msg. checkin ex_env ex_req ex_db_photo_required =
     (Inr (Json400 msg), ex_db_photo_required)"
    using checkin_guards [where s = ex_db_photo_required and req = ex_req and e = ex_env
        and m = ex_member and c = "ex_challenge\<lparr>c_verification_type := Some ''photo_required''\<rparr>",
        THEN conjunct2, THEN conjunct2, THEN conjunct2, THEN conjunct1] h4 h4'
    by (simp add: fail_def ids)
  have run: "checkin ex_env ex_req ex_db
               = (fst (checkin ex_env ex_req ex_db), snd (checkin ex_env ex_req ex_db))"
    by simp
  have w6: "checkin ex_env ex_req (snd (checkin ex_env ex_req ex_db)) =
     (Inr (Json400 ''Already checked in today.''), snd (checkin ex_env ex_req ex_db))"
    using checkin_guards [where s = ex_db and req = ex_req and e = ex_env
        and res = "fst (checkin ex_env ex_req ex_db)" and s' = "snd (checkin ex_env ex_req ex_db)"
        and ?e2.0 = ex_env and ?req2.0 = ex_req,
        THEN conjunct2, THEN conjunct2, THEN conjunct2, THEN conjunct2, THEN conjunct2]
      run ex_run_succeeded
    by (simp add: fail_def ids)
  show ?thesis
    using w1 w2 w4 w6 ex_run_succeeded by blast
qed



section \<open>The resolved date\<close>


lemma strip_last: "strip s \<noteq> [] \<Longrightarrow> \<not> is_space (last (strip s))"
  unfolding strip_def
  by (simp add: last_rev hd_dropWhile)

lemma re_match_date_strip: "re_match_date (strip f) = ymd_shape (strip f)"
proof -
  have "is_space (CHR 0x0A)"
    by (simp add: is_space_def)
  then have "\<not> (length (strip f) = 11 \<and> last (strip f) = CHR 0x0A)"
    using strip_last [of f] by (cases "strip f = []") auto
  then show ?thesis
    by (auto simp: re_match_date_def)
qed

lemma strptime_ymd_shape: "strptime_ymd t = Some p \<Longrightarrow> ymd_shape t"
  by (auto simp: strptime_ymd_def split: if_splits)

text \<open>
  C9. The resolved date is the date of the \<open>client_date\<close> field (stripped of surrounding
  whitespace) exactly when the field matches the pattern, is a date of the calendar and
  is at most one day before or after the server's today; in every other case it is the
  server's today. So it is never more than one day away from the server's today.
\<close>

theorem resolve_today_window:
  "(re_match_date (strip f) \<and> strptime_ymd (strip f) = Some parsed \<and>
      \<bar>user_today - parsed\<bar> \<le> 1 \<longrightarrow> resolve_today user_today f = parsed) \<and>
   (\<not> (re_match_date (strip f) \<and>
        (\<exists>p. strptime_ymd (strip f) = Some p \<and> \<bar>user_today - p\<bar> \<le> 1)) \<longrightarrow>
      resolve_today user_today f = user_today) \<and>
   (strptime_ymd (strip f) = Some parsed \<longrightarrow>
      (resolve_today user_today f = parsed \<longleftrightarrow> \<bar>user_today - parsed\<bar> \<le> 1)) \<and>
   \<bar>resolve_today user_today f - user_today\<bar> \<le> 1 \<and>
   (re_match_date (strip f) \<longleftrightarrow> ymd_shape (strip f))"
proof -
  have ne: "re_match_date (strip f) \<Longrightarrow> strip f \<noteq> []"
    by (auto simp: re_match_date_def ymd_shape_def)
  have sh: "\<And>p. strptime_ymd (strip f) = Some p \<Longrightarrow> re_match_date (strip f)"
    using strptime_ymd_shape re_match_date_strip by blast
  show ?thesis
    using ne sh re_match_date_strip [of f]
    by (auto simp: resolve_today_def Let_def split: option.splits)
qed

theorem resolve_today_window_witness:
  "re_match_date (strip '' 2026-11-05 '') \<and> strptime_ymd (strip '' 2026-11-05 '') = Some 739925 \<and>
   resolve_today 739924 '' 2026-11-05 '' = 739925 \<and>
   strptime_ymd (strip ''2026-11-06'') = Some 739926 \<and>
   resolve_today 739924 ''2026-11-06'' = 739924 \<and>
   strptime_ymd (strip ''2026-02-30'') = None \<and>
   resolve_today 739924 ''2026-02-30'' = 739924"
proof -
  have a: "re_match_date (strip '' 2026-11-05 '')"
    "strptime_ymd (strip '' 2026-11-05 '') = Some 739925"
    "strptime_ymd (strip ''2026-11-06'') = Some 739926"
    "strptime_ymd (strip ''2026-02-30'') = None"
    by code_simp+
  have w1: "resolve_today 739924 '' 2026-11-05 '' = 739925"
    using resolve_today_window [where f = "'' 2026-11-05 ''" and parsed = 739925
        and user_today = 739924, THEN conjunct1] a
    by simp
  have w2: "resolve_today 739924 ''2026-11-06'' = 739924"
    using resolve_today_window [where f = "''2026-11-06''" and user_today = 739924,
        THEN conjunct2, THEN conjunct1] a
    by simp
  have w3: "resolve_today 739924 ''2026-02-30'' = 739924"
    using resolve_today_window [where f = "''2026-02-30''" and user_today = 739924,
        THEN conjunct2, THEN conjunct1] a
    by simp
  show ?thesis
    using a w1 w2 w3 by blast
qed

section \<open>Achievements\<close>


lemma award_loop_user_achievements:
  "d_user_achievements (award_loop st u as s) =
     d_user_achievements s @
       map (\<lambda>a. \<lparr>ua_user_id = u, ua_achievement_id = a_id a\<rparr>) (filter (qualifies st) as)"
  by (induction as arbitrary: s) (simp_all add: award_def)

lemma award_loop_notifications:
  "d_notifications (award_loop st u as s) =
     d_notifications s @
       map (\<lambda>a. \<lparr>n_user_id = u, n_type = ''achievement_earned'',
                  n_title = ''Achievement Unlocked'',
                  n_message = ''You earned '' @ [CHR 0x22] @ a_name a @ [CHR 0x22] @ '' - '' @
                    str_opt (a_description a),
                  n_link = Some (url_for AchievementsPage)\<rparr>)
         (filter (qualifies st) as)"
  by (induction as arbitrary: s) (simp_all add: award_def create_notification_def)

lemma award_loop_none:
  "\<forall>a\<in>set as. \<not> qualifies st a \<Longrightarrow> award_loop st u as s = s"
  by (induction as arbitrary: s) simp_all

lemma stat_map_frame:
  "d_checkins s' = d_checkins s \<Longrightarrow> d_members s' = d_members s \<Longrightarrow>
   d_challenges s' = d_challenges s \<Longrightarrow> stat_map s' u = stat_map s u"
  by (simp add: stat_map_def members_of_user_def)

lemma check_achievements_run:
  assumes "get_user s u = Some usr"
  shows "check_achievements u s =
           award_loop (stat_map s u) u (unearned s u) s"
  using assms by (simp add: check_achievements_def)

lemma filter_key_single:
  "distinct (map f xs) \<Longrightarrow> x \<in> set xs \<Longrightarrow> filter (\<lambda>y. f y = f x) xs = [x]"
proof (induction xs)
  case Nil
  then show ?case by simp
next
  case (Cons y ys)
  show ?case
  proof (cases "y = x")
    case True
    with Cons.prems have "f x \<notin> f ` set ys"
      by simp
    then have "\<forall>z\<in>set ys. f z \<noteq> f x"
      by (metis imageI)
    then have "filter (\<lambda>y. f y = f x) ys = []"
      by (simp add: filter_empty_conv)
    with True show ?thesis by simp
  next
    case False
    with Cons.prems have "f y \<noteq> f x"
      by force
    with Cons False show ?thesis by simp
  qed
qed

lemma filter_eq_count:
  "distinct xs \<Longrightarrow> length (filter (\<lambda>y. y = r) xs) = (if r \<in> set xs then 1 else 0)"
  by (induction xs) auto

lemma ua_row_eq:
  "(ua_user_id ua = u \<and> ua_achievement_id ua = k)
     = (ua = \<lparr>ua_user_id = u, ua_achievement_id = k\<rparr>)"
  by (cases ua) auto

text \<open>
  C6. For a user that exists, with the primary key of the achievements and the unique
  constraint of the earned achievements in place, the evaluator adds one earned row and
  one notification for each unearned achievement whose statistic reaches its threshold,
  and nothing else; afterwards every achievement whose statistic reaches its threshold
  is earned by the user exactly once; and running the evaluator again on the result
  changes nothing.
\<close>

theorem check_achievements_idempotent:
  assumes usr: "get_user s user_id = Some usr"
    and pk: "distinct (map a_id (d_achievements s))"
    and uq: "distinct (d_user_achievements s)"
  shows "let s' = check_achievements user_id s;
             awarded = filter (qualifies (stat_map s user_id)) (unearned s user_id)
         in d_user_achievements s' =
              d_user_achievements s @
                map (\<lambda>a. \<lparr>ua_user_id = user_id, ua_achievement_id = a_id a\<rparr>) awarded \<and>
            d_notifications s' =
              d_notifications s @
                map (\<lambda>a. \<lparr>n_user_id = user_id, n_type = ''achievement_earned'',
                           n_title = ''Achievement Unlocked'',
                           n_message = ''You earned '' @ [CHR 0x22] @ a_name a @ [CHR 0x22] @
                             '' - '' @ str_opt (a_description a),
                           n_link = Some ''/achievements''\<rparr>) awarded \<and>
            (\<forall>a\<in>set (d_achievements s).
                qualifies (stat_map s user_id) a \<longrightarrow>
                length (filter (\<lambda>ua. ua_user_id ua = user_id \<and> ua_achievement_id ua = a_id a)
                          (d_user_achievements s')) = 1) \<and>
            check_achievements user_id s' = s'"
proof -
  define st where "st = stat_map s user_id"
  define awarded where "awarded = filter (qualifies st) (unearned s user_id)"
  define s' where "s' = check_achievements user_id s"
  have s'_loop: "s' = award_loop st user_id (unearned s user_id) s"
    unfolding s'_def st_def by (rule check_achievements_run [OF usr])
  have uas: "d_user_achievements s' =
      d_user_achievements s @
        map (\<lambda>a. \<lparr>ua_user_id = user_id, ua_achievement_id = a_id a\<rparr>) awarded"
    unfolding s'_loop awarded_def by (rule award_loop_user_achievements)
  have nots: "d_notifications s' =
      d_notifications s @
        map (\<lambda>a. \<lparr>n_user_id = user_id, n_type = ''achievement_earned'',
                   n_title = ''Achievement Unlocked'',
                   n_message = ''You earned '' @ [CHR 0x22] @ a_name a @ [CHR 0x22] @
                     '' - '' @ str_opt (a_description a),
                   n_link = Some ''/achievements''\<rparr>) awarded"
    unfolding s'_loop awarded_def by (simp add: award_loop_notifications)
  have once: "length (filter (\<lambda>ua. ua_user_id ua = user_id \<and> ua_achievement_id ua = a_id a)
                          (d_user_achievements s')) = 1"
    if a: "a \<in> set (d_achievements s)" and q: "qualifies st a" for a
  proof -
    let ?row = "\<lparr>ua_user_id = user_id, ua_achievement_id = a_id a\<rparr>"
    have old: "length (filter (\<lambda>ua. ua_user_id ua = user_id \<and> ua_achievement_id ua = a_id a)
                 (d_user_achievements s)) = (if ?row \<in> set (d_user_achievements s) then 1 else 0)"
      unfolding ua_row_eq by (rule filter_eq_count [OF uq])
    have "a_id a \<in> set (earned_ids s user_id) \<longleftrightarrow>
            (\<exists>ua\<in>set (d_user_achievements s).
                ua_user_id ua = user_id \<and> ua_achievement_id ua = a_id a)"
      by (force simp: earned_ids_def image_iff)
    then have earned: "?row \<in> set (d_user_achievements s) \<longleftrightarrow> a_id a \<in> set (earned_ids s user_id)"
      unfolding ua_row_eq by simp
    have "filter (\<lambda>b. a_id b = a_id a) awarded
            = filter (\<lambda>b. qualifies st b \<and> a_id b \<notin> set (earned_ids s user_id))
                (filter (\<lambda>b. a_id b = a_id a) (d_achievements s))"
      unfolding awarded_def unearned_def by (simp add: conj_commute conj_left_commute)
    also have "\<dots> = (if a_id a \<in> set (earned_ids s user_id) then [] else [a])"
      unfolding filter_key_single [OF pk a] using q by simp
    finally have new: "length (filter (\<lambda>ua. ua_user_id ua = user_id \<and> ua_achievement_id ua = a_id a)
                 (map (\<lambda>a. \<lparr>ua_user_id = user_id, ua_achievement_id = a_id a\<rparr>) awarded))
               = (if a_id a \<in> set (earned_ids s user_id) then 0 else 1)"
      by (simp add: filter_map o_def)
    show ?thesis
      unfolding uas using old new earned by simp
  qed
  have again: "check_achievements user_id s' = s'"
  proof -
    have usr': "get_user s' user_id = Some usr"
      using usr by (simp add: s'_def get_user_def)
    have st': "stat_map s' user_id = st"
      unfolding st_def s'_def by (rule stat_map_frame) simp_all
    have "\<not> qualifies st b" if b: "b \<in> set (unearned s' user_id)" for b
    proof
      assume qb: "qualifies st b"
      from b have "b \<in> set (d_achievements s)"
        and ne: "a_id b \<notin> set (earned_ids s' user_id)"
        by (simp_all add: unearned_def s'_def)
      have ids: "set (earned_ids s' user_id) = set (earned_ids s user_id) \<union> a_id ` set awarded"
        by (auto simp: earned_ids_def uas)
      from ne ids have "a_id b \<notin> set (earned_ids s user_id)" and nb: "a_id b \<notin> a_id ` set awarded"
        by auto
      with \<open>b \<in> set (d_achievements s)\<close> qb have "b \<in> set awarded"
        by (simp add: awarded_def unearned_def)
      with nb show False by blast
    qed
    then have "award_loop st user_id (unearned s' user_id) s' = s'"
      by (intro award_loop_none) blast
    then show ?thesis
      unfolding check_achievements_run [OF usr'] st' .
  qed
  show ?thesis
    using uas nots once again
    unfolding Let_def s'_def [symmetric] st_def [symmetric] awarded_def [symmetric]
    by blast
qed


lemma ex_week_run:
  "get_user ex_db_week 1 = Some ex_user"
  "distinct (map a_id (d_achievements ex_db_week))"
  "distinct (d_user_achievements ex_db_week)"
  "d_user_achievements ex_db_week = []"
  "filter (qualifies (stat_map ex_db_week 1)) (unearned ex_db_week 1) = ex_achievements"
  by code_simp+

theorem check_achievements_idempotent_witness:
  "get_user ex_db_week 1 = Some ex_user \<and>
   distinct (map a_id (d_achievements ex_db_week)) \<and>
   distinct (d_user_achievements ex_db_week) \<and>
   d_user_achievements (check_achievements 1 ex_db_week) =
     [\<lparr>ua_user_id = 1, ua_achievement_id = 1\<rparr>, \<lparr>ua_user_id = 1, ua_achievement_id = 2\<rparr>] \<and>
   check_achievements 1 (check_achievements 1 ex_db_week) = check_achievements 1 ex_db_week"
proof -
  from check_achievements_idempotent [OF ex_week_run(1-3)]
  have "d_user_achievements (check_achievements 1 ex_db_week) =
          d_user_achievements ex_db_week @
            map (\<lambda>a. \<lparr>ua_user_id = 1, ua_achievement_id = a_id a\<rparr>)
              (filter (qualifies (stat_map ex_db_week 1)) (unearned ex_db_week 1))"
    and again: "check_achievements 1 (check_achievements 1 ex_db_week)
                  = check_achievements 1 ex_db_week"
    by (simp_all add: Let_def)
  then have "d_user_achievements (check_achievements 1 ex_db_week) =
     [\<lparr>ua_user_id = 1, ua_achievement_id = 1\<rparr>, \<lparr>ua_user_id = 1, ua_achievement_id = 2\<rparr>]"
    by (simp add: ex_week_run(4,5) ex_achievements_def)
  with again ex_week_run(1-3) show ?thesis
    by simp
qed

section \<open>Challenge completion\<close>


lemma notify_members_frame [simp]:
  "d_users (notify_members c wn wp ms s) = d_users s"
  "d_challenges (notify_members c wn wp ms s) = d_challenges s"
  "d_members (notify_members c wn wp ms s) = d_members s"
  "d_checkins (notify_members c wn wp ms s) = d_checkins s"
  "d_achievements (notify_members c wn wp ms s) = d_achievements s"
  "d_user_achievements (notify_members c wn wp ms s) = d_user_achievements s"
  unfolding notify_members_def
  by (induction ms arbitrary: s; simp)+

lemma notify_members_notifications:
  "d_notifications (notify_members c wn wp ms s) =
     d_notifications s @
       map (\<lambda>member. \<lparr>n_user_id = m_user_id member, n_type = ''challenge_completed'',
                       n_title = ''Challenge Ended'',
                       n_message = ended_message (c_name c) wn wp,
                       n_link = Some (url_for (ViewChallenge (c_id c)))\<rparr>) ms"
  unfolding notify_members_def
  by (induction ms arbitrary: s) (simp_all add: create_notification_def)

lemma put_challenge_frame [simp]:
  "d_users (put_challenge c s) = d_users s"
  "d_members (put_challenge c s) = d_members s"
  "d_checkins (put_challenge c s) = d_checkins s"
  "d_achievements (put_challenge c s) = d_achievements s"
  "d_user_achievements (put_challenge c s) = d_user_achievements s"
  "d_notifications (put_challenge c s) = d_notifications s"
  by (simp_all add: put_challenge_def)

lemma find_map_put:
  "find (\<lambda>r. key r = k) (map (\<lambda>r. if key r = key x' then x' else r) xs) =
     (if k = key x' then map_option (\<lambda>_. x') (find (\<lambda>r. key r = k) xs)
      else find (\<lambda>r. key r = k) xs)"
  by (induction xs) auto

lemma get_challenge_put:
  "get_challenge (put_challenge c' s) cid =
     (if cid = c_id c' then map_option (\<lambda>_. c') (get_challenge s cid)
      else get_challenge s cid)"
  unfolding get_challenge_def put_challenge_def
  by (simp add: find_map_put [where key = c_id])

lemma get_challenge_id: "get_challenge s cid = Some c \<Longrightarrow> c_id c = cid"
  unfolding get_challenge_def by (drule find_Some_P) simp

lemma winner_member_of_cases:
  "winner_member_of s cid = None \<and> members_of_challenge s cid = [] \<or>
   (\<exists>w. winner_member_of s cid = Some w \<and> w \<in> set (members_of_challenge s cid) \<and>
        (\<forall>x\<in>set (members_of_challenge s cid). m_points x \<le> m_points w))"
proof (cases "sort_key (\<lambda>m. - m_points m) (members_of_challenge s cid)")
  case Nil
  then have "set (members_of_challenge s cid) = {}"
    by (metis set_sort set_empty)
  with Nil show ?thesis
    by (simp add: winner_member_of_def)
next
  case (Cons w rest)
  have "sorted (map (\<lambda>m. - m_points m) (sort_key (\<lambda>m. - m_points m) (members_of_challenge s cid)))"
    by (rule sorted_sort_key)
  with Cons have le: "\<forall>x\<in>set rest. - m_points w \<le> - m_points x"
    by simp
  have "set (members_of_challenge s cid) = set (w # rest)"
    using Cons by (metis set_sort)
  with le Cons show ?thesis
    by (auto simp: winner_member_of_def)
qed

lemma winner_member_of_frame:
  "d_members s' = d_members s \<Longrightarrow> winner_member_of s' cid = winner_member_of s cid"
  by (simp add: winner_member_of_def members_of_challenge_def)

text \<open>One run of the loop body: a challenge that is left alone, and one that is completed.\<close>

lemma finalize_challenge_skip:
  assumes "get_challenge s (m_challenge_id m) = Some c"
    and "\<not> (has_ended today c \<and> \<not> c_is_completed c)"
  shows "finalize_challenge today m s = Inr s"
  using assms by (auto simp: finalize_challenge_def)

lemma finalize_challenge_run:
  assumes c: "get_challenge s (m_challenge_id m) = Some c"
    and go: "has_ended today c \<and> \<not> c_is_completed c"
    and users: "\<forall>x\<in>set (d_members s). get_user s (m_user_id x) \<noteq> None"
  shows "\<exists>s' wn wp.
           finalize_challenge today m s = Inr s' \<and>
           d_members s' = d_members s \<and> d_users s' = d_users s \<and>
           d_challenges s' = d_challenges
             (put_challenge (c\<lparr>c_is_completed := True,
                 c_winner_id := map_option m_user_id (winner_member_of s (c_id c))\<rparr>) s) \<and>
           d_notifications s' = d_notifications s @
             map (\<lambda>member. \<lparr>n_user_id = m_user_id member, n_type = ''challenge_completed'',
                       n_title = ''Challenge Ended'',
                       n_message = ended_message (c_name c) wn wp,
                       n_link = Some (url_for (ViewChallenge (c_id c)))\<rparr>)
               (members_of_challenge s (c_id c))"
proof (cases "winner_member_of s (c_id c)")
  case None
  then show ?thesis
    using c go
    by (auto simp: finalize_challenge_def Let_def notify_members_notifications)
next
  case (Some w)
  with winner_member_of_cases [of s "c_id c"] have "w \<in> set (d_members s)"
    by (auto simp: members_of_challenge_def)
  with users obtain u where "get_user s (m_user_id w) = Some u"
    by auto
  with Some show ?thesis
    using c go
    by (auto simp: finalize_challenge_def Let_def notify_members_notifications)
qed


lemma get_challenge_cong:
  "d_challenges s' = d_challenges s \<Longrightarrow> get_challenge s' cid = get_challenge s cid"
  by (simp add: get_challenge_def)

lemma get_user_cong:
  "d_users s' = d_users s \<Longrightarrow> get_user s' uid = get_user s uid"
  by (simp add: get_user_def)

lemma members_of_challenge_cong:
  "d_members s' = d_members s \<Longrightarrow> members_of_challenge s' cid = members_of_challenge s cid"
  by (simp add: members_of_challenge_def)

lemma foreign_keys_iff:
  "foreign_keys s \<longleftrightarrow>
     (\<forall>x\<in>set (d_members s). get_challenge s (m_challenge_id x) \<noteq> None \<and>
                              get_user s (m_user_id x) \<noteq> None)"
  by (simp add: foreign_keys_def list_all_iff)

lemma finalize_loop_run:
  assumes "foreign_keys s" and "set ms \<subseteq> set (d_members s)"
  shows "\<exists>s' extra.
           finalize_loop today ms s = (s', None) \<and>
           d_members s' = d_members s \<and> d_users s' = d_users s \<and>
           d_notifications s' = d_notifications s @ extra \<and>
           (\<forall>cid c. get_challenge s cid = Some c \<longrightarrow>
              (if cid \<in> m_challenge_id ` set ms \<and> has_ended today c \<and> \<not> c_is_completed c
               then get_challenge s' cid =
                      Some (c\<lparr>c_is_completed := True,
                              c_winner_id := map_option m_user_id (winner_member_of s cid)\<rparr>) \<and>
                    (\<forall>x\<in>set (members_of_challenge s cid).
                        \<exists>n\<in>set extra. n_user_id n = m_user_id x \<and>
                          n_type n = ''challenge_completed'' \<and>
                          n_link n = Some (url_for (ViewChallenge cid)))
               else get_challenge s' cid = Some c))"
  using assms
proof (induction ms arbitrary: s)
  case Nil
  then show ?case by simp
next
  case (Cons m ms)
  from Cons.prems have fk: "foreign_keys s" and m_in: "m \<in> set (d_members s)"
    and ms_in: "set ms \<subseteq> set (d_members s)"
    by simp_all
  from fk m_in obtain c0 where c0: "get_challenge s (m_challenge_id m) = Some c0"
    by (auto simp: foreign_keys_iff)
  have id0: "c_id c0 = m_challenge_id m"
    by (rule get_challenge_id [OF c0])
  show ?case
  proof (cases "has_ended today c0 \<and> \<not> c_is_completed c0")
    case False
    have step: "finalize_challenge today m s = Inr s"
      by (rule finalize_challenge_skip [OF c0 False])
    from Cons.IH [OF fk ms_in] obtain s' extra where
      run: "finalize_loop today ms s = (s', None)"
      and fr: "d_members s' = d_members s" "d_users s' = d_users s"
        "d_notifications s' = d_notifications s @ extra"
      and ch: "\<forall>cid c. get_challenge s cid = Some c \<longrightarrow>
              (if cid \<in> m_challenge_id ` set ms \<and> has_ended today c \<and> \<not> c_is_completed c
               then get_challenge s' cid =
                      Some (c\<lparr>c_is_completed := True,
                              c_winner_id := map_option m_user_id (winner_member_of s cid)\<rparr>) \<and>
                    (\<forall>x\<in>set (members_of_challenge s cid).
                        \<exists>n\<in>set extra. n_user_id n = m_user_id x \<and>
                          n_type n = ''challenge_completed'' \<and>
                          n_link n = Some (url_for (ViewChallenge cid)))
               else get_challenge s' cid = Some c)"
      by blast
    have "\<forall>cid c. get_challenge s cid = Some c \<longrightarrow>
              (if cid \<in> m_challenge_id ` set (m # ms) \<and> has_ended today c \<and> \<not> c_is_completed c
               then get_challenge s' cid =
                      Some (c\<lparr>c_is_completed := True,
                              c_winner_id := map_option m_user_id (winner_member_of s cid)\<rparr>) \<and>
                    (\<forall>x\<in>set (members_of_challenge s cid).
                        \<exists>n\<in>set extra. n_user_id n = m_user_id x \<and>
                          n_type n = ''challenge_completed'' \<and>
                          n_link n = Some (url_for (ViewChallenge cid)))
               else get_challenge s' cid = Some c)"
    proof (intro allI impI)
      fix cid c assume c: "get_challenge s cid = Some c"
      show "if cid \<in> m_challenge_id ` set (m # ms) \<and> has_ended today c \<and> \<not> c_is_completed c
               then get_challenge s' cid =
                      Some (c\<lparr>c_is_completed := True,
                              c_winner_id := map_option m_user_id (winner_member_of s cid)\<rparr>) \<and>
                    (\<forall>x\<in>set (members_of_challenge s cid).
                        \<exists>n\<in>set extra. n_user_id n = m_user_id x \<and>
                          n_type n = ''challenge_completed'' \<and>
                          n_link n = Some (url_for (ViewChallenge cid)))
               else get_challenge s' cid = Some c"
      proof (cases "cid = m_challenge_id m")
        case True
        with c c0 have "c = c0" by simp
        with False ch [rule_format, OF c] show ?thesis
          by (auto split: if_splits)
      next
        case ne: False
        then have "cid \<in> m_challenge_id ` set (m # ms) \<longleftrightarrow> cid \<in> m_challenge_id ` set ms"
          by auto
        with ch [rule_format, OF c] show ?thesis
          by simp
      qed
    qed
    with run fr step show ?thesis
      by auto
  next
    case True
    from fk have users: "\<forall>x\<in>set (d_members s). get_user s (m_user_id x) \<noteq> None"
      by (simp add: foreign_keys_iff)
    let ?c0' = "c0\<lparr>c_is_completed := True,
                 c_winner_id := map_option m_user_id (winner_member_of s (c_id c0))\<rparr>"
    from finalize_challenge_run [OF c0 True users] obtain s1 wn wp where
      step: "finalize_challenge today m s = Inr s1"
      and fr1: "d_members s1 = d_members s" "d_users s1 = d_users s"
      and ch1: "d_challenges s1 = d_challenges (put_challenge ?c0' s)"
      and no1: "d_notifications s1 = d_notifications s @
             map (\<lambda>member. \<lparr>n_user_id = m_user_id member, n_type = ''challenge_completed'',
                       n_title = ''Challenge Ended'',
                       n_message = ended_message (c_name c0) wn wp,
                       n_link = Some (url_for (ViewChallenge (c_id c0)))\<rparr>)
               (members_of_challenge s (c_id c0))"
      by blast
    have gc1: "get_challenge s1 cid =
                 (if cid = m_challenge_id m then map_option (\<lambda>_. ?c0') (get_challenge s cid)
                  else get_challenge s cid)" for cid
      unfolding get_challenge_cong [OF ch1] get_challenge_put by (simp add: id0)
    have fk1: "foreign_keys s1"
      using fk unfolding foreign_keys_iff fr1 get_user_cong [OF fr1(2)] gc1
      by auto
    have ms1: "set ms \<subseteq> set (d_members s1)"
      using ms_in fr1 by simp
    from Cons.IH [OF fk1 ms1] obtain s' extra where
      run: "finalize_loop today ms s1 = (s', None)"
      and fr: "d_members s' = d_members s1" "d_users s' = d_users s1"
        "d_notifications s' = d_notifications s1 @ extra"
      and ch: "\<forall>cid c. get_challenge s1 cid = Some c \<longrightarrow>
              (if cid \<in> m_challenge_id ` set ms \<and> has_ended today c \<and> \<not> c_is_completed c
               then get_challenge s' cid =
                      Some (c\<lparr>c_is_completed := True,
                              c_winner_id := map_option m_user_id (winner_member_of s1 cid)\<rparr>) \<and>
                    (\<forall>x\<in>set (members_of_challenge s1 cid).
                        \<exists>n\<in>set extra. n_user_id n = m_user_id x \<and>
                          n_type n = ''challenge_completed'' \<and>
                          n_link n = Some (url_for (ViewChallenge cid)))
               else get_challenge s' cid = Some c)"
      by blast
    let ?new = "map (\<lambda>member. \<lparr>n_user_id = m_user_id member, n_type = ''challenge_completed'',
                       n_title = ''Challenge Ended'',
                       n_message = ended_message (c_name c0) wn wp,
                       n_link = Some (url_for (ViewChallenge (c_id c0)))\<rparr>)
               (members_of_challenge s (c_id c0))"
    have A: "\<forall>cid c. get_challenge s cid = Some c \<longrightarrow>
              (if cid \<in> m_challenge_id ` set (m # ms) \<and> has_ended today c \<and> \<not> c_is_completed c
               then get_challenge s' cid =
                      Some (c\<lparr>c_is_completed := True,
                              c_winner_id := map_option m_user_id (winner_member_of s cid)\<rparr>) \<and>
                    (\<forall>x\<in>set (members_of_challenge s cid).
                        \<exists>n\<in>set (?new @ extra). n_user_id n = m_user_id x \<and>
                          n_type n = ''challenge_completed'' \<and>
                          n_link n = Some (url_for (ViewChallenge cid)))
               else get_challenge s' cid = Some c)"
    proof (intro allI impI)
      fix cid c assume c: "get_challenge s cid = Some c"
      show "if cid \<in> m_challenge_id ` set (m # ms) \<and> has_ended today c \<and> \<not> c_is_completed c
               then get_challenge s' cid =
                      Some (c\<lparr>c_is_completed := True,
                              c_winner_id := map_option m_user_id (winner_member_of s cid)\<rparr>) \<and>
                    (\<forall>x\<in>set (members_of_challenge s cid).
                        \<exists>n\<in>set (?new @ extra). n_user_id n = m_user_id x \<and>
                          n_type n = ''challenge_completed'' \<and>
                          n_link n = Some (url_for (ViewChallenge cid)))
               else get_challenge s' cid = Some c"
      proof (cases "cid = m_challenge_id m")
        case eq: True
        with c c0 have cc: "c = c0" by simp
        have "get_challenge s1 cid = Some ?c0'"
          using gc1 [of cid] eq c0 by simp
        from ch [rule_format, OF this] have g: "get_challenge s' cid = Some ?c0'"
          by simp
        have newn: "\<exists>n\<in>set (?new @ extra). n_user_id n = m_user_id x \<and>
                  n_type n = ''challenge_completed'' \<and>
                  n_link n = Some (url_for (ViewChallenge cid))"
          if x: "x \<in> set (members_of_challenge s cid)" for x
        proof -
          let ?n = "\<lparr>n_user_id = m_user_id x, n_type = ''challenge_completed'',
                       n_title = ''Challenge Ended'',
                       n_message = ended_message (c_name c0) wn wp,
                       n_link = Some (url_for (ViewChallenge (c_id c0)))\<rparr>"
          from x have "?n \<in> set (?new @ extra)"
            using eq id0 by (simp del: url_for.simps add: image_iff) blast
          then show ?thesis
            using eq id0 by (intro bexI [of _ ?n]) (simp_all del: url_for.simps)
        qed
        have cond: "cid \<in> m_challenge_id ` set (m # ms) \<and> has_ended today c \<and>
                    \<not> c_is_completed c"
          using True eq cc by simp
        have g': "get_challenge s' cid =
                      Some (c\<lparr>c_is_completed := True,
                              c_winner_id := map_option m_user_id (winner_member_of s cid)\<rparr>)"
          using g cc eq id0 by simp
        show ?thesis
          unfolding if_P [OF cond] using g' newn by blast
      next
        case ne: False
        then have mem: "cid \<in> m_challenge_id ` set (m # ms) \<longleftrightarrow> cid \<in> m_challenge_id ` set ms"
          by auto
        have "get_challenge s1 cid = Some c"
          using gc1 [of cid] ne c by simp
        from ch [rule_format, OF this] show ?thesis
          unfolding mem winner_member_of_frame [OF fr1(1)] members_of_challenge_cong [OF fr1(1)]
          by (auto split: if_splits)
      qed
    qed
    have B: "finalize_loop today (m # ms) s = (s', None)"
      using step run by simp
    have C: "d_notifications s' = d_notifications s @ (?new @ extra)"
      using fr(3) no1 by simp
    have D: "d_members s' = d_members s" and E: "d_users s' = d_users s"
      using fr fr1 by simp_all
    show ?thesis
      by (rule exI [of _ s'], rule exI [of _ "?new @ extra"]) (intro conjI B D E C A)
  qed
qed

lemma finalize_loop_noop:
  assumes "\<forall>m\<in>set ms. \<exists>c. get_challenge s (m_challenge_id m) = Some c \<and>
              \<not> (has_ended today c \<and> \<not> c_is_completed c)"
  shows "finalize_loop today ms s = (s, None)"
  using assms
  by (induction ms) (auto simp: finalize_challenge_skip)


text \<open>
  C7. With the foreign keys of the membership table in place, the lifecycle check
  returns without an exception, and for every membership of the user: a challenge whose
  end date has passed and that was not completed is marked completed, its winner is a
  member of the challenge with the highest points, and every member of the challenge
  gets a notification; any other challenge is left as it was. If no challenge of the user
  is in that case the state is unchanged, and a second run of the check right after the
  first changes nothing.
\<close>

theorem lifecycle_check:
  assumes fk: "foreign_keys s"
  shows "\<exists>s' extra.
           check_completed_challenges today user_id s = (s', None) \<and>
           d_notifications s' = d_notifications s @ extra \<and>
           (\<forall>m\<in>set (members_of_user s user_id). \<forall>c.
              get_challenge s (m_challenge_id m) = Some c \<longrightarrow>
                (if has_ended today c \<and> \<not> c_is_completed c
                 then (\<exists>w\<in>set (members_of_challenge s (c_id c)).
                         (\<forall>x\<in>set (members_of_challenge s (c_id c)). m_points x \<le> m_points w) \<and>
                         get_challenge s' (c_id c) =
                           Some (c\<lparr>c_is_completed := True, c_winner_id := Some (m_user_id w)\<rparr>)) \<and>
                      (\<forall>x\<in>set (members_of_challenge s (c_id c)).
                         \<exists>n\<in>set extra. n_user_id n = m_user_id x \<and>
                           n_type n = ''challenge_completed'' \<and>
                           n_link n = Some (url_for (ViewChallenge (c_id c))))
                 else get_challenge s' (c_id c) = Some c)) \<and>
           ((\<forall>m\<in>set (members_of_user s user_id). \<forall>c.
               get_challenge s (m_challenge_id m) = Some c \<longrightarrow>
                 \<not> (has_ended today c \<and> \<not> c_is_completed c)) \<longrightarrow> s' = s) \<and>
           check_completed_challenges today user_id s' = (s', None)"
proof -
  let ?ms = "members_of_user s user_id"
  have sub: "set ?ms \<subseteq> set (d_members s)"
    by (auto simp: members_of_user_def)
  from finalize_loop_run [OF fk sub, of today] obtain s' extra where
    run: "finalize_loop today ?ms s = (s', None)"
    and fr: "d_members s' = d_members s" "d_users s' = d_users s"
    and no: "d_notifications s' = d_notifications s @ extra"
    and ch: "\<forall>cid c. get_challenge s cid = Some c \<longrightarrow>
              (if cid \<in> m_challenge_id ` set ?ms \<and> has_ended today c \<and> \<not> c_is_completed c
               then get_challenge s' cid =
                      Some (c\<lparr>c_is_completed := True,
                              c_winner_id := map_option m_user_id (winner_member_of s cid)\<rparr>) \<and>
                    (\<forall>x\<in>set (members_of_challenge s cid).
                        \<exists>n\<in>set extra. n_user_id n = m_user_id x \<and>
                          n_type n = ''challenge_completed'' \<and>
                          n_link n = Some (url_for (ViewChallenge cid)))
               else get_challenge s' cid = Some c)"
    by blast
  have each: "if has_ended today c \<and> \<not> c_is_completed c
                 then (\<exists>w\<in>set (members_of_challenge s (c_id c)).
                         (\<forall>x\<in>set (members_of_challenge s (c_id c)). m_points x \<le> m_points w) \<and>
                         get_challenge s' (c_id c) =
                           Some (c\<lparr>c_is_completed := True, c_winner_id := Some (m_user_id w)\<rparr>)) \<and>
                      (\<forall>x\<in>set (members_of_challenge s (c_id c)).
                         \<exists>n\<in>set extra. n_user_id n = m_user_id x \<and>
                           n_type n = ''challenge_completed'' \<and>
                           n_link n = Some (url_for (ViewChallenge (c_id c))))
                 else get_challenge s' (c_id c) = Some c"
    if m: "m \<in> set ?ms" and c: "get_challenge s (m_challenge_id m) = Some c" for m c
  proof -
    have id: "c_id c = m_challenge_id m"
      by (rule get_challenge_id [OF c])
    have inn: "m_challenge_id m \<in> m_challenge_id ` set ?ms"
      using m by blast
    note chc = ch [rule_format, OF c]
    show ?thesis
    proof (cases "has_ended today c \<and> \<not> c_is_completed c")
      case False
      with chc show ?thesis
        unfolding id by (auto split: if_splits)
    next
      case True
      with chc inn have g: "get_challenge s' (m_challenge_id m) =
                      Some (c\<lparr>c_is_completed := True,
                              c_winner_id := map_option m_user_id
                                (winner_member_of s (m_challenge_id m))\<rparr>)"
        and n: "\<forall>x\<in>set (members_of_challenge s (m_challenge_id m)).
                        \<exists>n\<in>set extra. n_user_id n = m_user_id x \<and>
                          n_type n = ''challenge_completed'' \<and>
                          n_link n = Some (url_for (ViewChallenge (m_challenge_id m)))"
        by simp_all
      have "m \<in> set (members_of_challenge s (m_challenge_id m))"
        using m by (simp add: members_of_challenge_def members_of_user_def)
      with winner_member_of_cases [of s "m_challenge_id m"] obtain w where
        w: "winner_member_of s (m_challenge_id m) = Some w"
          "w \<in> set (members_of_challenge s (m_challenge_id m))"
          "\<forall>x\<in>set (members_of_challenge s (m_challenge_id m)). m_points x \<le> m_points w"
        by auto
      have "\<exists>w\<in>set (members_of_challenge s (m_challenge_id m)).
                (\<forall>x\<in>set (members_of_challenge s (m_challenge_id m)). m_points x \<le> m_points w) \<and>
                get_challenge s' (m_challenge_id m) =
                  Some (c\<lparr>c_is_completed := True, c_winner_id := Some (m_user_id w)\<rparr>)"
        using w g by (intro bexI [of _ w]) simp_all
      with n True show ?thesis
        unfolding id by simp
    qed
  qed
  have known: "\<exists>c. get_challenge s (m_challenge_id m) = Some c" if "m \<in> set ?ms" for m
    using that fk sub by (auto simp: foreign_keys_iff)
  have noop: "s' = s"
    if "\<forall>m\<in>set ?ms. \<forall>c. get_challenge s (m_challenge_id m) = Some c \<longrightarrow>
               \<not> (has_ended today c \<and> \<not> c_is_completed c)"
  proof -
    from that known have "\<forall>m\<in>set ?ms. \<exists>c. get_challenge s (m_challenge_id m) = Some c \<and>
              \<not> (has_ended today c \<and> \<not> c_is_completed c)"
      by blast
    from finalize_loop_noop [OF this] run show ?thesis
      by simp
  qed
  have ms': "members_of_user s' user_id = ?ms"
    using fr by (simp add: members_of_user_def)
  have "\<exists>c'. get_challenge s' (m_challenge_id m) = Some c' \<and>
              \<not> (has_ended today c' \<and> \<not> c_is_completed c')" if m: "m \<in> set ?ms" for m
  proof -
    from known [OF m] obtain c where c: "get_challenge s (m_challenge_id m) = Some c"
      by blast
    have id: "c_id c = m_challenge_id m"
      by (rule get_challenge_id [OF c])
    from each [OF m c] show ?thesis
      unfolding id by (cases "has_ended today c \<and> \<not> c_is_completed c") auto
  qed
  then have again: "finalize_loop today ?ms s' = (s', None)"
    by (intro finalize_loop_noop) blast
  have R: "check_completed_challenges today user_id s = (s', None)"
    using run by (simp add: check_completed_challenges_def)
  have A: "check_completed_challenges today user_id s' = (s', None)"
    using again by (simp add: check_completed_challenges_def ms')
  show ?thesis
    apply (rule exI [of _ s'], rule exI [of _ extra])
    apply (intro conjI R no A)
    using each noop by blast+
qed


lemma ex_ended_run:
  "foreign_keys ex_db_ended"
  "get_challenge (fst (check_completed_challenges 739924 1 ex_db_ended)) 1
     = Some (ex_challenge\<lparr>c_end_date := Some 739923, c_is_completed := True,
                           c_winner_id := Some 2\<rparr>)"
  "map n_user_id (d_notifications (fst (check_completed_challenges 739924 1 ex_db_ended)))
     = [1, 2]"
  by code_simp+

theorem lifecycle_check_witness:
  "foreign_keys ex_db_ended \<and>
   snd (check_completed_challenges 739924 1 ex_db_ended) = None \<and>
   get_challenge (fst (check_completed_challenges 739924 1 ex_db_ended)) 1
     = Some (ex_challenge\<lparr>c_end_date := Some 739923, c_is_completed := True,
                           c_winner_id := Some 2\<rparr>) \<and>
   map n_user_id (d_notifications (fst (check_completed_challenges 739924 1 ex_db_ended)))
     = [1, 2] \<and>
   check_completed_challenges 739924 1 (fst (check_completed_challenges 739924 1 ex_db_ended))
     = (fst (check_completed_challenges 739924 1 ex_db_ended), None)"
proof -
  from lifecycle_check [OF ex_ended_run(1), of 739924 1] obtain s' where
    "check_completed_challenges 739924 1 ex_db_ended = (s', None)"
    and "check_completed_challenges 739924 1 s' = (s', None)"
    by blast
  then show ?thesis
    using ex_ended_run by simp
qed

end
